theory Spec2Isabelle
  imports Complex_Main "HOL-Library.Word" "HOL-Library.AList"
begin

section \<open>Arrays and rasters\<close>

text \<open>
  A numpy array of two or three dimensions is a list of rows (of pixels, of channel
  vectors). A raster file carries its own width and height beside the band data, which
  is stored band-major (band, row, column), as \<open>src.read()\<close> returns it. Its bounds
  are (left, bottom, right, top). Pixel codes are integers; \<open>astype("uint8")\<close> wraps them into 8-bit words.
\<close>

type_synonym colour = "8 word \<times> 8 word \<times> 8 word"

datatype error =
  FileNotFoundError | KeyError | TypeError | IndexError | AttributeError
| RasterioIOError | JSONDecodeError | RecursionError

record tif =
  tif_width :: nat
  tif_height :: nat
  tif_crs :: "string option"
  tif_bounds :: "real \<times> real \<times> real \<times> real"
  tif_bands :: "int list list list"

definition is_array2 :: "nat \<Rightarrow> nat \<Rightarrow> 'a list list \<Rightarrow> bool" where
  "is_array2 H W a = (length a = H \<and> list_all (\<lambda>r. length r = W) a)"

definition wf_tif :: "tif \<Rightarrow> bool" where
  "wf_tif t = list_all (is_array2 (tif_height t) (tif_width t)) (tif_bands t)"

definition astype_uint8 :: "int list list \<Rightarrow> 8 word list list" where
  "astype_uint8 a = map (map word_of_int) a"

definition where_eq :: "8 word \<Rightarrow> 8 word \<Rightarrow> 8 word list list \<Rightarrow> 8 word list list" where
  \<comment> \<open>\<open>np.where(m == c, r, m)\<close>\<close>
  "where_eq c r m = map (map (\<lambda>v. if v = c then r else v)) m"

definition zeros3 :: "nat \<Rightarrow> nat \<Rightarrow> nat \<Rightarrow> bool list list list" where
  "zeros3 H W K = replicate H (replicate W (replicate K False))"

definition ones2 :: "nat \<Rightarrow> nat \<Rightarrow> bool list list" where
  "ones2 H W = replicate H (replicate W True)"

fun index :: "'a list \<Rightarrow> 'a \<Rightarrow> nat" where
  \<comment> \<open>\<open>xs.index(x)\<close>, the first position of \<open>x\<close>; every call is guarded by \<open>x in xs\<close>\<close>
  "index [] x = 0"
| "index (y # ys) x = (if y = x then 0 else Suc (index ys x))"

definition ior_channel ::
  "bool list list list \<Rightarrow> nat \<Rightarrow> bool list list \<Rightarrow> bool list list list" where
  \<comment> \<open>\<open>onehot[:, :, k] |= cond\<close>\<close>
  "ior_channel onehot k cond =
     map2 (\<lambda>row crow. map2 (\<lambda>v c. v[k := v ! k \<or> c]) row crow) onehot cond"

definition mask_onehot :: "string list \<Rightarrow> nat \<Rightarrow> nat \<Rightarrow> 8 word list list \<Rightarrow> bool list list list" where
  "mask_onehot classes H W m =
     (let K = length classes;
          onehot = zeros3 H W K;
          onehot = (if ''Clear'' \<in> set classes
                    then ior_channel onehot (index classes ''Clear'') (map (map (\<lambda>v. v = 0)) m)
                    else onehot);
          onehot = (if ''Cloud'' \<in> set classes
                    then (let k_cloud = index classes ''Cloud'';
                              onehot = ior_channel onehot k_cloud (map (map (\<lambda>v. v = 1)) m)
                          in ior_channel onehot k_cloud (map (map (\<lambda>v. 1 < v)) m))
                    else onehot)
      in onehot)"

definition paint_class ::
  "colour list list \<Rightarrow> bool list list list \<Rightarrow> nat \<Rightarrow> colour \<Rightarrow> colour list list" where
  \<comment> \<open>\<open>rgbmask[onehot[:, :, k]] = c\<close>\<close>
  "paint_class rgbmask onehot k c =
     map2 (\<lambda>prow orow. map2 (\<lambda>px v. if v ! k then c else px) prow orow) rgbmask onehot"

fun paint_loop ::
  "bool list list list \<Rightarrow> colour list \<Rightarrow> nat list \<Rightarrow> colour list list \<Rightarrow> error + colour list list" where
  \<comment> \<open>\<open>for k, _n in enumerate(classes): rgbmask[onehot[:, :, k]] = class_colors[k]\<close>\<close>
  "paint_loop onehot class_colors [] rgbmask = Inr rgbmask"
| "paint_loop onehot class_colors (k # ks) rgbmask =
     (if k < length class_colors
      then paint_loop onehot class_colors ks (paint_class rgbmask onehot k (class_colors ! k))
      else Inl IndexError)"

section \<open>Documents and files\<close>

text \<open>
  A JSON document is a tree; an object keeps its keys in insertion order. The file system
  is an association list from paths (lists of components) to file contents: a path
  exists when it has an entry, directories are implicit in the paths of their files, and
  symbolic links are not modelled, so that removing a stale file and saving over it is an
  overwrite. The element type \<open>'f\<close> stands for 32-bit floats.
\<close>

datatype json =
  JNull | JBool bool | JInt int | JFloat real | JStr string
| JArr "json list" | JObj "(string \<times> json) list"

type_synonym path = "string list"

datatype 'f content =
  Tif tif
| NpyFloat32 "'f list list list"
| NpyBool3 "bool list list list"
| NpyBool2 "bool list list"
| Png "colour list list"
| JsonFile json
| TextFile "string list"

type_synonym 'f fs = "(path \<times> 'f content) list"

definition path_exists :: "'f fs \<Rightarrow> path \<Rightarrow> bool" where
  "path_exists fs p = (map_of fs p \<noteq> None)"

definition save :: "'f fs \<Rightarrow> path \<Rightarrow> 'f content \<Rightarrow> 'f fs" where
  "save fs p f = AList.update p f fs"

definition unlink :: "'f fs \<Rightarrow> path \<Rightarrow> 'f fs" where
  "unlink fs p = AList.delete p fs"

definition name :: "path \<Rightarrow> string" where
  \<comment> \<open>\<open>p.name\<close>, the last component\<close>
  "name p = (if p = [] then [] else last p)"

definition parent :: "path \<Rightarrow> path" where
  "parent p = butlast p"

section \<open>The mask cache encoder\<close>

definition MASK_TIF_NAME :: string where
  "MASK_TIF_NAME = ''f_1dpwseg.tif''"

definition seg_dir :: "path \<Rightarrow> string \<Rightarrow> path \<Rightarrow> path" where
  "seg_dir proj_dir proj_name id_src_dir =
     proj_dir @ [proj_name @ ''.iris'', ''segmentation'', name id_src_dir]"

definition build_caches_from_mask ::
  "'f fs \<Rightarrow> path \<Rightarrow> path \<Rightarrow> string \<Rightarrow> string list \<Rightarrow> colour list \<Rightarrow> 'f fs \<times> error option" where
  \<comment> \<open>the file system after the call, and the exception that ended it, if any\<close>
  "build_caches_from_mask fs id_src_dir proj_dir proj_name classes class_colors =
     (case map_of fs (id_src_dir @ [MASK_TIF_NAME]) of
        None \<Rightarrow> (fs, None)
      | Some (Tif src) \<Rightarrow>
          (case tif_bands src of
             [] \<Rightarrow> (fs, Some IndexError)
           | band1 # _ \<Rightarrow>
               (let m = astype_uint8 band1;
                    m = where_eq 255 0 m;
                    H = tif_height src; W = tif_width src;
                    onehot = mask_onehot classes H W m;
                    user = ones2 H W;
                    d = seg_dir proj_dir proj_name id_src_dir;
                    fs = save fs (d @ [''1_final.npy'']) (NpyBool3 onehot);
                    fs = save fs (d @ [''1_user.npy'']) (NpyBool2 user);
                    rgbmask = replicate H (replicate W (0, 0, 0))
                in case paint_loop onehot class_colors [0..<length classes] rgbmask of
                     Inl e \<Rightarrow> (fs, Some e)
                   | Inr rgbmask \<Rightarrow> (save fs (d @ [''mask.png'']) (Png rgbmask), None)))
      | Some _ \<Rightarrow> (fs, Some RasterioIOError))"

section \<open>The array materializer\<close>

definition moveaxis_0_last :: "nat \<Rightarrow> nat \<Rightarrow> 'a list list list \<Rightarrow> 'a list list list" where
  \<comment> \<open>\<open>np.moveaxis(arr, 0, -1)\<close> on an array of shape (C, H, W): the result has shape (H, W, C)\<close>
  "moveaxis_0_last H W arr =
     map (\<lambda>y. map (\<lambda>x. map (\<lambda>band. band ! y ! x) arr) [0..<W]) [0..<H]"

definition astype :: "('a \<Rightarrow> 'f) \<Rightarrow> 'a list list list \<Rightarrow> 'f list list list" where
  \<comment> \<open>\<open>arr.astype(t)\<close>, with the conversion of one element given\<close>
  "astype cast arr = map (map (map cast)) arr"

definition write_rgb_npy_to_dest ::
  "(int \<Rightarrow> 'f) \<Rightarrow> 'f fs \<Rightarrow> path \<Rightarrow> path \<Rightarrow> 'f fs \<times> error option" where
  \<comment> \<open>\<open>float32\<close> is the conversion of a pixel value to a 32-bit float\<close>
  "write_rgb_npy_to_dest float32 fs tif_path dest_npy =
     (let fs = (if path_exists fs dest_npy then unlink fs dest_npy else fs)
      in case map_of fs tif_path of
           Some (Tif src) \<Rightarrow>
             (let arr = tif_bands src;
                  arr = astype float32 (moveaxis_0_last (tif_height src) (tif_width src) arr)
              in (save fs dest_npy (NpyFloat32 arr), None))
         | _ \<Rightarrow> (fs, Some RasterioIOError))"

section \<open>The project configurator\<close>

text \<open>
  Reprojection is the library routine \<open>rasterio.warp.transform\<close>, taken as a parameter:
  from a source and a target reference system and two coordinate lists it returns the
  lists of the transformed x and y coordinates. Console output is left out. Directories
  being implicit, \<open>mkdir\<close> changes nothing, and \<open>safe_make_clean_dest_dir\<close>, which removes
  a symbolic link and makes the directory, is the identity. Of \<open>create_projects_per_id\<close>
  the loop over the scenes is modelled: the template document, the class names and
  colours read from it (lines 160 to 163) and the identifiers found by \<open>list_ids\<close> are
  its arguments.
\<close>

type_synonym transform = "string \<Rightarrow> string \<Rightarrow> real list \<Rightarrow> real list \<Rightarrow> real list \<times> real list"

definition and_then :: "error + 'a \<Rightarrow> ('a \<Rightarrow> error + 'b) \<Rightarrow> error + 'b" where
  "and_then r f = (case r of Inl e \<Rightarrow> Inl e | Inr x \<Rightarrow> f x)"

definition path_str :: "path \<Rightarrow> string" where
  "path_str p = concat (map (\<lambda>c. ''/'' @ c) p)"

definition get_width_height_from_tif :: "'f fs \<Rightarrow> path \<Rightarrow> error + nat \<times> nat" where
  "get_width_height_from_tif fs tif_path =
     (case map_of fs tif_path of
        Some (Tif src) \<Rightarrow> Inr (tif_width src, tif_height src)
      | _ \<Rightarrow> Inl RasterioIOError)"

definition compute_center_latlon :: "transform \<Rightarrow> 'f fs \<Rightarrow> path \<Rightarrow> error + (real \<times> real) option" where
  "compute_center_latlon transform fs tif_path =
     (case map_of fs tif_path of
        Some (Tif src) \<Rightarrow>
          (case tif_crs src of
             None \<Rightarrow> Inr None
           | Some crs \<Rightarrow>
               (case tif_bounds src of
                  (b_left, b_bottom, b_right, b_top) \<Rightarrow>
                    (let cx = (b_left + b_right) / 2;
                         cy = (b_bottom + b_top) / 2
                     in case transform crs ''EPSG:4326'' [cx] [cy] of
                          (lon, lat) \<Rightarrow>
                            (case (lat, lon) of
                               (la # _, lo # _) \<Rightarrow> Inr (Some (la, lo))
                             | _ \<Rightarrow> Inl IndexError))))
      | _ \<Rightarrow> Inl RasterioIOError)"

definition safe_make_clean_dest_dir :: "'f fs \<Rightarrow> path \<Rightarrow> 'f fs" where
  "safe_make_clean_dest_dir fs p = fs"

definition remove_source_rgb_npy :: "'f fs \<Rightarrow> path \<Rightarrow> 'f fs" where
  "remove_source_rgb_npy fs id_src_dir =
     (let src_npy = id_src_dir @ [''rgb.npy'']
      in if path_exists fs src_npy then unlink fs src_npy else fs)"

subsection \<open>Documents as values\<close>

definition getitem :: "json \<Rightarrow> string \<Rightarrow> error + json" where
  \<comment> \<open>\<open>d[k]\<close> for a string key\<close>
  "getitem d k =
     (case d of
        JObj kvs \<Rightarrow> (case map_of kvs k of Some v \<Rightarrow> Inr v | None \<Rightarrow> Inl KeyError)
      | _ \<Rightarrow> Inl TypeError)"

definition setitem :: "json \<Rightarrow> string \<Rightarrow> json \<Rightarrow> error + json" where
  \<comment> \<open>\<open>d[k] = v\<close>: a present key keeps its place, a new one goes last\<close>
  "setitem d k v =
     (case d of
        JObj kvs \<Rightarrow> Inr (JObj (AList.update k v kvs))
      | _ \<Rightarrow> Inl TypeError)"

definition setdefault :: "json \<Rightarrow> string \<Rightarrow> json \<Rightarrow> error + json" where
  "setdefault d k v =
     (case d of
        JObj kvs \<Rightarrow> Inr (JObj (if map_of kvs k = None then kvs @ [(k, v)] else kvs))
      | _ \<Rightarrow> Inl AttributeError)"

definition deep_copy :: "json \<Rightarrow> json" where
  \<comment> \<open>\<open>json.loads(json.dumps(d))\<close>, on documents as values\<close>
  "deep_copy d = d"

definition scene_cfg :: "json \<Rightarrow> string \<Rightarrow> nat \<Rightarrow> nat \<Rightarrow> error + json" where
  \<comment> \<open>lines 210 to 215; an assignment inside \<open>cfg["images"]\<close> shows in \<open>cfg\<close>\<close>
  "scene_cfg base_cfg id_name W H =
     (let cfg = deep_copy base_cfg
      in and_then (setitem cfg ''name'' (JStr id_name)) (\<lambda>cfg.
         and_then (getitem cfg ''images'') (\<lambda>images.
         and_then (setitem images ''path'' (JStr ''images/{id}/rgb.npy'')) (\<lambda>images.
         and_then (setitem cfg ''images'' images) (\<lambda>cfg.
         and_then (getitem cfg ''images'') (\<lambda>images.
         and_then (setitem images ''shape'' (JArr [JInt (int W), JInt (int H)])) (\<lambda>images.
         and_then (setitem cfg ''images'' images) (\<lambda>cfg.
         and_then (setdefault cfg ''segmentation'' (JObj [])) (\<lambda>cfg.
         and_then (getitem cfg ''segmentation'') (\<lambda>seg.
         and_then (setitem seg ''mask_area''
                    (JArr [JInt 0, JInt 0, JInt (int W), JInt (int H)])) (\<lambda>seg.
         setitem cfg ''segmentation'' seg)))))))))))"

subsection \<open>One project per scene\<close>

definition OVERWRITE_JSON :: bool where
  "OVERWRITE_JSON = True"

datatype outcome = Raised error | Skipped | Configured string

definition metadata :: "string \<Rightarrow> real \<Rightarrow> real \<Rightarrow> json" where
  "metadata id_name lat lon =
     JObj [(''scene_id'', JStr id_name), (''location'', JArr [JFloat lat, JFloat lon])]"

definition process_scene ::
  "transform \<Rightarrow> (int \<Rightarrow> 'f) \<Rightarrow> json \<Rightarrow> string list \<Rightarrow> colour list \<Rightarrow> path \<Rightarrow> path \<Rightarrow>
   'f fs \<Rightarrow> string \<Rightarrow> 'f fs \<times> outcome" where
  \<comment> \<open>the body of the loop over \<open>ids\<close>: the file system after it, and how it ended\<close>
  "process_scene transform float32 base_cfg classes class_colors base_json_path images_root
     fs id_name =
     (let id_src_dir = images_root @ [id_name];
          tif_rgb = id_src_dir @ [''rgb.tif'']
      in if \<not> path_exists fs tif_rgb then (fs, Skipped)
         else
           case get_width_height_from_tif fs tif_rgb of
             Inl e \<Rightarrow> (fs, Raised e)
           | Inr (W, H) \<Rightarrow>
               (let proj_dir = parent base_json_path @ [''spot'', id_name];
                    proj_images_id_dir = proj_dir @ [''images'', id_name];
                    fs = safe_make_clean_dest_dir fs proj_images_id_dir;
                    dest_npy = proj_images_id_dir @ [''rgb.npy'']
                in case write_rgb_npy_to_dest float32 fs tif_rgb dest_npy of
                     (fs, Some e) \<Rightarrow> (fs, Raised e)
                   | (fs, None) \<Rightarrow>
                       (case compute_center_latlon transform fs tif_rgb of
                          Inl e \<Rightarrow> (fs, Raised e)
                        | Inr latlon \<Rightarrow>
                            (let fs = (case latlon of
                                         None \<Rightarrow> fs
                                       | Some (lat, lon) \<Rightarrow>
                                           save fs (proj_images_id_dir @ [''metadata.json''])
                                             (JsonFile (metadata id_name lat lon)));
                                 fs = remove_source_rgb_npy fs id_src_dir;
                                 proj_json = proj_dir @ [id_name @ ''.json'']
                             in case scene_cfg base_cfg id_name W H of
                                  Inl e \<Rightarrow> (fs, Raised e)
                                | Inr cfg \<Rightarrow>
                                    (let fs = (if OVERWRITE_JSON \<or> \<not> path_exists fs proj_json
                                               then save fs proj_json (JsonFile cfg) else fs)
                                     in case build_caches_from_mask fs id_src_dir proj_dir id_name
                                               classes class_colors of
                                          (fs, Some e) \<Rightarrow> (fs, Raised e)
                                        | (fs, None) \<Rightarrow>
                                            (fs, Configured (''iris label '' @ path_str proj_json)))))))"

fun scenes_loop ::
  "('f fs \<Rightarrow> string \<Rightarrow> 'f fs \<times> outcome) \<Rightarrow> string list \<Rightarrow> 'f fs \<Rightarrow> string list \<Rightarrow>
   ('f fs \<times> string list) \<times> error option" where
  \<comment> \<open>\<open>for id_name in ids\<close>, with the launcher lines gathered so far\<close>
  "scenes_loop body [] fs run_lines = ((fs, run_lines), None)"
| "scenes_loop body (id_name # ids) fs run_lines =
     (case body fs id_name of
        (fs, Raised e) \<Rightarrow> ((fs, run_lines), Some e)
      | (fs, Skipped) \<Rightarrow> scenes_loop body ids fs run_lines
      | (fs, Configured l) \<Rightarrow> scenes_loop body ids fs (run_lines @ [l]))"

text \<open>
  The file system handed to \<open>build_caches_from_mask\<close> when nothing raised before it:
  the array, the metadata (if any), the removal of a source \<open>rgb.npy\<close> and the
  configuration, in this order.
\<close>

definition scene_fs ::
  "(int \<Rightarrow> 'f) \<Rightarrow> path \<Rightarrow> path \<Rightarrow> 'f fs \<Rightarrow> string \<Rightarrow> (real \<times> real) option \<Rightarrow> json \<Rightarrow> 'f fs" where
  "scene_fs to_float base_json_path images_root fs id_name latlon cfg =
     (let proj_dir = parent base_json_path @ [''spot'', id_name];
          fs = fst (write_rgb_npy_to_dest to_float fs (images_root @ [id_name, ''rgb.tif''])
                 (proj_dir @ [''images'', id_name, ''rgb.npy'']));
          fs = (case latlon of
                  None \<Rightarrow> fs
                | Some (lat, lon) \<Rightarrow>
                    save fs (proj_dir @ [''images'', id_name, ''metadata.json''])
                      (JsonFile (metadata id_name lat lon)));
          fs = remove_source_rgb_npy fs (images_root @ [id_name])
      in save fs (proj_dir @ [id_name @ ''.json'']) (JsonFile cfg))"

subsection \<open>Documents as objects in a store\<close>

text \<open>
  Whether two documents share structure is not visible on values, so lines 160 to 161 and
  210 to 215 are also modelled on a store of Python objects: a dictionary or a list is a
  cell, addressed by its position, and a value is a scalar or a reference to a cell.
  \<open>json.loads\<close> allocates a fresh cell for every object and array of the text, children
  first; \<open>json.dumps\<close> reads a document back from the store and fails beyond the nesting
  limit, as the interpreter does on a circular or too deeply nested structure. The cells a
  value reaches are those found by following references.
\<close>

datatype pyval = VNone | VBool bool | VInt int | VFloat real | VStr string | VRef nat

datatype pyobj = ODict "(string \<times> pyval) list" | OList "pyval list"

type_synonym heap = "pyobj list"

definition alloc :: "heap \<Rightarrow> pyobj \<Rightarrow> pyval \<times> heap" where
  "alloc h obj = (VRef (length h), h @ [obj])"

fun loads :: "json \<Rightarrow> heap \<Rightarrow> pyval \<times> heap"
  and loads_items :: "json list \<Rightarrow> heap \<Rightarrow> pyval list \<times> heap"
  and loads_fields :: "(string \<times> json) list \<Rightarrow> heap \<Rightarrow> (string \<times> pyval) list \<times> heap" where
  "loads JNull h = (VNone, h)"
| "loads (JBool b) h = (VBool b, h)"
| "loads (JInt i) h = (VInt i, h)"
| "loads (JFloat r) h = (VFloat r, h)"
| "loads (JStr s) h = (VStr s, h)"
| "loads (JArr xs) h = (case loads_items xs h of (vs, h) \<Rightarrow> alloc h (OList vs))"
| "loads (JObj kvs) h = (case loads_fields kvs h of (fs, h) \<Rightarrow> alloc h (ODict fs))"
| "loads_items [] h = ([], h)"
| "loads_items (x # xs) h =
     (case loads x h of (v, h) \<Rightarrow> case loads_items xs h of (vs, h) \<Rightarrow> (v # vs, h))"
| "loads_fields [] h = ([], h)"
| "loads_fields ((k, x) # kvs) h =
     (case loads x h of (v, h) \<Rightarrow> case loads_fields kvs h of (fs, h) \<Rightarrow> ((k, v) # fs, h))"

fun dumps :: "nat \<Rightarrow> heap \<Rightarrow> pyval \<Rightarrow> json option" where
  "dumps n h VNone = Some JNull"
| "dumps n h (VBool b) = Some (JBool b)"
| "dumps n h (VInt i) = Some (JInt i)"
| "dumps n h (VFloat r) = Some (JFloat r)"
| "dumps n h (VStr s) = Some (JStr s)"
| "dumps 0 h (VRef a) = None"
| "dumps (Suc n) h (VRef a) =
     (if a < length h
      then (case h ! a of
              OList vs \<Rightarrow> map_option JArr (those (map (dumps n h) vs))
            | ODict fs \<Rightarrow>
                map_option (\<lambda>js. JObj (zip (map fst fs) js)) (those (map (dumps n h) (map snd fs))))
      else None)"

definition py_getitem :: "heap \<Rightarrow> pyval \<Rightarrow> string \<Rightarrow> error + pyval" where
  "py_getitem h d k =
     (case d of
        VRef a \<Rightarrow>
          (if a < length h
           then (case h ! a of
                   ODict fs \<Rightarrow> (case map_of fs k of Some v \<Rightarrow> Inr v | None \<Rightarrow> Inl KeyError)
                 | OList vs \<Rightarrow> Inl TypeError)
           else Inl TypeError)
      | _ \<Rightarrow> Inl TypeError)"

definition py_setitem :: "heap \<Rightarrow> pyval \<Rightarrow> string \<Rightarrow> pyval \<Rightarrow> error + heap" where
  "py_setitem h d k v =
     (case d of
        VRef a \<Rightarrow>
          (if a < length h
           then (case h ! a of
                   ODict fs \<Rightarrow> Inr (h[a := ODict (AList.update k v fs)])
                 | OList vs \<Rightarrow> Inl TypeError)
           else Inl TypeError)
      | _ \<Rightarrow> Inl TypeError)"

definition py_setdefault :: "heap \<Rightarrow> pyval \<Rightarrow> string \<Rightarrow> pyval \<Rightarrow> error + heap" where
  "py_setdefault h d k v =
     (case d of
        VRef a \<Rightarrow>
          (if a < length h
           then (case h ! a of
                   ODict fs \<Rightarrow>
                     Inr (if map_of fs k = None then h[a := ODict (fs @ [(k, v)])] else h)
                 | OList vs \<Rightarrow> Inl AttributeError)
           else Inl AttributeError)
      | _ \<Rightarrow> Inl AttributeError)"

definition scene_cfg_heap ::
  "nat \<Rightarrow> heap \<Rightarrow> pyval \<Rightarrow> string \<Rightarrow> nat \<Rightarrow> nat \<Rightarrow> error + pyval \<times> heap" where
  "scene_cfg_heap limit h base_cfg id_name W H =
     (case dumps limit h base_cfg of
        None \<Rightarrow> Inl RecursionError
      | Some doc \<Rightarrow>
          (case loads doc h of (cfg, h) \<Rightarrow>
             and_then (py_setitem h cfg ''name'' (VStr id_name)) (\<lambda>h.
             and_then (py_getitem h cfg ''images'') (\<lambda>images.
             and_then (py_setitem h images ''path'' (VStr ''images/{id}/rgb.npy'')) (\<lambda>h.
             case alloc h (OList [VInt (int W), VInt (int H)]) of (shape, h) \<Rightarrow>
             and_then (py_getitem h cfg ''images'') (\<lambda>images.
             and_then (py_setitem h images ''shape'' shape) (\<lambda>h.
             case alloc h (ODict []) of (fresh, h) \<Rightarrow>
             and_then (py_setdefault h cfg ''segmentation'' fresh) (\<lambda>h.
             case alloc h (OList [VInt 0, VInt 0, VInt (int W), VInt (int H)]) of (area, h) \<Rightarrow>
             and_then (py_getitem h cfg ''segmentation'') (\<lambda>seg.
             and_then (py_setitem h seg ''mask_area'' area) (\<lambda>h.
             Inr (cfg, h)))))))))))"

definition refs :: "pyobj \<Rightarrow> nat set" where
  "refs obj = (case obj of OList vs \<Rightarrow> {a. VRef a \<in> set vs} | ODict fs \<Rightarrow> {a. VRef a \<in> snd ` set fs})"

definition edges :: "heap \<Rightarrow> (nat \<times> nat) set" where
  "edges h = {(a, c). a < length h \<and> c \<in> refs (h ! a)}"

definition reach :: "heap \<Rightarrow> pyval \<Rightarrow> nat set" where
  "reach h v = (case v of VRef a \<Rightarrow> (edges h)\<^sup>* `` {a} | _ \<Rightarrow> {})"

text \<open>
  The bookkeeping of the proofs: a range of addresses is closed when its cells refer
  only into the range, and a store owns what it added to an older one when the older
  cells are unchanged and the added range is closed.
\<close>

definition closed :: "heap \<Rightarrow> nat \<Rightarrow> nat \<Rightarrow> bool" where
  "closed h lo hi = (hi \<le> length h \<and> (\<forall>a. lo \<le> a \<and> a < hi \<longrightarrow> refs (h ! a) \<subseteq> {lo..<hi}))"

definition in_range :: "nat \<Rightarrow> nat \<Rightarrow> pyval \<Rightarrow> bool" where
  "in_range lo hi v = (case v of VRef a \<Rightarrow> lo \<le> a \<and> a < hi | _ \<Rightarrow> True)"

definition own :: "heap \<Rightarrow> heap \<Rightarrow> bool" where
  "own h0 h = ((\<exists>new. h = h0 @ new) \<and> closed h (length h0) (length h))"

section \<open>The harvester\<close>

text \<open>
  The second script runs at module level over the constants \<open>SPOT_ROOT\<close>,
  \<open>OUTPUT_DIR\<close> and \<open>IDS\<close>; the list of identifiers is an argument here. Its state is
  the file system, the two counters and the lines it prints, kept as the tag, the
  identifier and the path of each message. \<open>OUTPUT_DIR.mkdir\<close> changes nothing, directories
  being implicit.
\<close>

definition SPOT_ROOT :: path where
  "SPOT_ROOT = [''spot'']"

definition OUTPUT_DIR :: path where
  "OUTPUT_DIR = [''save_mask'']"

datatype line = MISS string path | OK string path

record 'f harvest =
  h_fs :: "'f fs"
  ok :: nat
  missing :: nat
  printed :: "line list"

definition preview_src :: "string \<Rightarrow> path" where
  "preview_src id_name =
     SPOT_ROOT @ [id_name, id_name @ ''.iris'', ''segmentation'', id_name, ''mask.png'']"

definition preview_dst :: "string \<Rightarrow> path" where
  "preview_dst id_name = OUTPUT_DIR @ [id_name @ ''.png'']"

fun harvest_loop :: "string list \<Rightarrow> 'f harvest \<Rightarrow> 'f harvest" where
  "harvest_loop [] s = s"
| "harvest_loop (id_name # ids) s =
     (let src = preview_src id_name; dst = preview_dst id_name
      in case map_of (h_fs s) src of
           None \<Rightarrow>
             harvest_loop ids
               (s\<lparr>missing := missing s + 1, printed := printed s @ [MISS id_name src]\<rparr>)
         | Some f \<Rightarrow>
             harvest_loop ids
               (s\<lparr>h_fs := save (h_fs s) dst f, printed := printed s @ [OK id_name dst]\<rparr>))"

definition harvest :: "'f fs \<Rightarrow> string list \<Rightarrow> 'f harvest" where
  "harvest fs ids = harvest_loop ids \<lparr>h_fs = fs, ok = 0, missing = 0, printed = []\<rparr>"

section \<open>A worked scene\<close>

definition example_mask :: tif where
  "example_mask = \<lparr>tif_width = 2, tif_height = 2, tif_crs = None,
     tif_bounds = (0, 0, 2, 2), tif_bands = [[[0, 1], [255, 2]]]\<rparr>"

definition example_src_dir :: path where
  "example_src_dir = [''spot'', ''images'', ''S1'']"

definition example_mask_fs :: "real fs" where
  "example_mask_fs = [(example_src_dir @ [MASK_TIF_NAME], Tif example_mask)]"

definition example_rgb :: tif where
  "example_rgb = \<lparr>tif_width = 2, tif_height = 1, tif_crs = Some ''EPSG:32618'',
     tif_bounds = (0, 0, 20, 10), tif_bands = [[[10, 11]], [[20, 21]], [[30, 31]]]\<rparr>"

definition example_png :: "real content" where
  "example_png = Png [[(0, 0, 255), (255, 255, 255)]]"

definition example_spot :: "real fs" where
  "example_spot =
     [([''spot'', ''B'', ''B.iris'', ''segmentation'', ''B'', ''mask.png''], example_png)]"

definition example_base :: json where
  "example_base = JObj
     [(''name'', JStr ''template''),
      (''images'', JObj [(''path'', JStr ''images/{id}/image.tif''), (''shape'', JArr [JInt 10, JInt 10])]),
      (''classes'', JArr
         [JObj [(''name'', JStr ''Clear''), (''colour'', JArr [JInt 255, JInt 255, JInt 255, JInt 0])],
          JObj [(''name'', JStr ''Cloud''), (''colour'', JArr [JInt 255, JInt 255, JInt 0, JInt 70])]])]"

definition example_fs :: "real fs" where
  "example_fs =
     [([''home'', ''base.json''], JsonFile example_base),
      ([''home'', ''spot'', ''images'', ''S1'', ''rgb.tif''], Tif (example_rgb\<lparr>tif_crs := None\<rparr>)),
      ([''home'', ''spot'', ''images'', ''S1'', ''f_1dpwseg.tif''], Tif example_mask),
      ([''home'', ''spot'', ''images'', ''S2'', ''rgb.tif''], Tif example_rgb)]"

definition example_transform :: transform where
  "example_transform src_crs dst_crs xs ys = (xs, ys)"

definition example_template :: pyval where
  "example_template = fst (loads example_base [])"

definition example_heap :: heap where
  "example_heap = snd (loads example_base [])"

section \<open>Properties of the arrays\<close>

lemma index_less: "x \<in> set xs \<Longrightarrow> index xs x < length xs"
  by (induction xs) auto

lemma index_nth: "x \<in> set xs \<Longrightarrow> xs ! index xs x = x"
  by (induction xs) auto

lemma is_array2_nth: "is_array2 H W a \<Longrightarrow> y < H \<Longrightarrow> length (a ! y) = W"
  by (simp add: is_array2_def list_all_length)

lemma is_array2_map: "is_array2 H W (map (map f) a) = is_array2 H W a"
  by (simp add: is_array2_def list_all_length)

lemma is_array2_zeros3: "is_array2 H W (zeros3 H W K)"
  by (simp add: is_array2_def zeros3_def list_all_length)

lemma is_array2_ior:
  "is_array2 H W oh \<Longrightarrow> is_array2 H W c \<Longrightarrow> is_array2 H W (ior_channel oh k c)"
  by (simp add: is_array2_def ior_channel_def list_all_length)

lemma ior_channel_nth:
  "is_array2 H W oh \<Longrightarrow> is_array2 H W c \<Longrightarrow> y < H \<Longrightarrow> x < W \<Longrightarrow>
   ior_channel oh k c ! y ! x = (oh ! y ! x)[k := oh ! y ! x ! k \<or> c ! y ! x]"
  by (simp add: is_array2_def ior_channel_def list_all_length)

lemma zeros3_nth: "y < H \<Longrightarrow> x < W \<Longrightarrow> zeros3 H W K ! y ! x = replicate K False"
  by (simp add: zeros3_def)

lemma word8_pos: "(v = 1 \<or> 1 < v) = (v \<noteq> 0)" for v :: "8 word"
  by (auto simp: word_less_nat_alt word_unat_eq_iff)

lemma cond_nth: "is_array2 H W m \<Longrightarrow> y < H \<Longrightarrow> x < W \<Longrightarrow> map (map f) m ! y ! x = f (m ! y ! x)"
  by (simp add: is_array2_def list_all_length)

lemma mask_onehot_nth:
  assumes m: "is_array2 H W m" and y: "y < H" and x: "x < W"
  shows "mask_onehot classes H W m ! y ! x =
     (let v = m ! y ! x;
          z = replicate (length classes) False;
          z = (if ''Clear'' \<in> set classes then z[index classes ''Clear'' := v = 0] else z)
      in if ''Cloud'' \<in> set classes then z[index classes ''Cloud'' := v \<noteq> 0] else z)"
proof -
  let ?K = "length classes"
  let ?kc = "index classes ''Clear''" and ?kd = "index classes ''Cloud''"
  let ?v = "m ! y ! x"
  define o0 where "o0 = zeros3 H W ?K"
  define o1 where "o1 = (if ''Clear'' \<in> set classes
      then ior_channel o0 ?kc (map (map (\<lambda>v. v = 0)) m) else o0)"
  define o2 where "o2 = ior_channel o1 ?kd (map (map (\<lambda>v. v = 1)) m)"
  define o3 where "o3 = ior_channel o2 ?kd (map (map (\<lambda>v. 1 < v)) m)"
  have a0: "is_array2 H W o0" by (simp add: o0_def is_array2_zeros3)
  have a1: "is_array2 H W o1" using a0 m by (simp add: o1_def is_array2_ior is_array2_map)
  have a2: "is_array2 H W o2" using a1 m by (simp add: o2_def is_array2_ior is_array2_map)
  have p0: "o0 ! y ! x = replicate ?K False" using y x by (simp add: o0_def zeros3_nth)
  have p1: "o1 ! y ! x = (if ''Clear'' \<in> set classes
      then (replicate ?K False)[?kc := ?v = 0] else replicate ?K False)"
    using a0 m y x p0
    by (simp add: o1_def ior_channel_nth is_array2_map cond_nth index_less)
  have p2: "o2 ! y ! x = (o1 ! y ! x)[?kd := o1 ! y ! x ! ?kd \<or> ?v = 1]"
    using a1 m y x by (simp add: o2_def ior_channel_nth is_array2_map cond_nth)
  have p3: "o3 ! y ! x = (o2 ! y ! x)[?kd := o2 ! y ! x ! ?kd \<or> 1 < ?v]"
    using a2 m y x by (simp add: o3_def ior_channel_nth is_array2_map cond_nth)
  have neq: "?kc \<noteq> ?kd" if "''Clear'' \<in> set classes" "''Cloud'' \<in> set classes"
    using index_nth[OF that(1)] index_nth[OF that(2)] by auto
  have p3': "''Cloud'' \<in> set classes \<Longrightarrow> o3 ! y ! x = (o1 ! y ! x)[?kd := ?v \<noteq> 0]"
    unfolding p3 p2 using neq word8_pos[of ?v]
    by (auto simp: p1 index_less)
  have "mask_onehot classes H W m = (if ''Cloud'' \<in> set classes then o3 else o1)"
    by (simp add: mask_onehot_def Let_def o0_def o1_def o2_def o3_def)
  then show ?thesis using p3' p1 by (simp add: Let_def)
qed

lemma paint_class_array2:
  "is_array2 H W rgb \<Longrightarrow> is_array2 H W oh \<Longrightarrow> is_array2 H W (paint_class rgb oh k c)"
  by (simp add: is_array2_def paint_class_def list_all_length)

lemma paint_loop_ok:
  "list_all (\<lambda>k. k < length cols) ks \<Longrightarrow>
   paint_loop oh cols ks rgb = Inr (foldl (\<lambda>r k. paint_class r oh k (cols ! k)) rgb ks)"
  by (induction ks arbitrary: rgb) auto

lemma paint_loop_cases:
  "paint_loop oh cols ks rgb = Inl IndexError \<or> (\<exists>r. paint_loop oh cols ks rgb = Inr r)"
  by (induction ks arbitrary: rgb) auto

lemma save_lookup: "map_of (save fs p f) q = (if q = p then Some f else map_of fs q)"
  by (simp add: save_def update_conv')

lemma build_caches_npy:
  assumes "map_of fs (id_src_dir @ [MASK_TIF_NAME]) = Some (Tif src)"
    and "tif_bands src = band # rest"
  shows "map_of (fst (build_caches_from_mask fs id_src_dir proj_dir proj_name classes class_colors))
           (seg_dir proj_dir proj_name id_src_dir @ [''1_final.npy'']) =
         Some (NpyBool3 (mask_onehot classes (tif_height src) (tif_width src)
                 (where_eq 255 0 (astype_uint8 band))))"
    and "map_of (fst (build_caches_from_mask fs id_src_dir proj_dir proj_name classes class_colors))
           (seg_dir proj_dir proj_name id_src_dir @ [''1_user.npy'']) =
         Some (NpyBool2 (ones2 (tif_height src) (tif_width src)))"
  using assms
  by (auto simp: build_caches_from_mask_def Let_def save_lookup split: sum.splits)

lemma band_array2:
  "wf_tif src \<Longrightarrow> tif_bands src = band # rest \<Longrightarrow>
   is_array2 (tif_height src) (tif_width src) (where_eq 255 0 (astype_uint8 band))"
  by (simp add: wf_tif_def where_eq_def astype_uint8_def is_array2_map)

lemma replicate_update_same: "(replicate K a)[j := a] = replicate K a"
  by (cases "j < K") (simp_all add: list_eq_iff_nth_eq nth_list_update)

lemma sum_one_hot:
  "i < K \<Longrightarrow> sum_list (map of_bool ((replicate K False)[i := True])) = (1::nat)"
  by (simp add: map_update sum_list_update)

text \<open>
  C1. When the class table holds both \<open>Clear\<close> and \<open>Cloud\<close>, the array saved as
  \<open>1_final.npy\<close> has, at every pixel of a single-band mask raster, a channel vector as
  long as the class table whose entries sum to exactly 1: one class per pixel, never none
  and never two. The pixel codes may be any integers: \<open>astype("uint8")\<close> wraps them.
\<close>

theorem onehot_exactly_one:
  assumes "map_of fs (id_src_dir @ [MASK_TIF_NAME]) = Some (Tif src)"
    and "wf_tif src" and "tif_bands src = [band]"
    and "''Clear'' \<in> set classes" and "''Cloud'' \<in> set classes"
    and "y < tif_height src" and "x < tif_width src"
  shows "\<exists>onehot.
     map_of (fst (build_caches_from_mask fs id_src_dir proj_dir proj_name classes class_colors))
       (seg_dir proj_dir proj_name id_src_dir @ [''1_final.npy'']) = Some (NpyBool3 onehot) \<and>
     length (onehot ! y ! x) = length classes \<and>
     sum_list (map of_bool (onehot ! y ! x)) = (1::nat)"
proof -
  let ?m = "where_eq 255 0 (astype_uint8 band)"
  let ?oh = "mask_onehot classes (tif_height src) (tif_width src) ?m"
  have arr: "is_array2 (tif_height src) (tif_width src) ?m"
    using assms(2,3) by (rule band_array2)
  have ne: "index classes ''Clear'' \<noteq> index classes ''Cloud''"
    using index_nth[OF assms(4)] index_nth[OF assms(5)] by auto
  have vec: "?oh ! y ! x = (replicate (length classes) False)
      [index classes ''Clear'' := ?m ! y ! x = 0, index classes ''Cloud'' := ?m ! y ! x \<noteq> 0]"
    using mask_onehot_nth[OF arr assms(6,7), of classes] assms(4,5) by (simp add: Let_def)
  have len: "length (?oh ! y ! x) = length classes" by (simp add: vec)
  have two: "sum_list (map of_bool ((replicate K False)[i := b, j := \<not> b])) = (1::nat)"
    if "i < K" "j < K" "i \<noteq> j" for K i j b
  proof (cases b)
    case True
    have "(replicate K False)[i := True, j := False] = ((replicate K False)[j := False])[i := True]"
      using that(3) by (simp add: list_update_swap)
    then show ?thesis using True sum_one_hot[OF that(1)] by (simp add: replicate_update_same)
  next
    case False
    then show ?thesis using sum_one_hot[OF that(2)] by (simp add: replicate_update_same)
  qed
  have sum: "sum_list (map of_bool (?oh ! y ! x)) = (1::nat)"
    unfolding vec using two[OF index_less[OF assms(4)] index_less[OF assms(5)] ne] .
  show ?thesis using build_caches_npy(1)[OF assms(1,3)] len sum by blast
qed

theorem onehot_exactly_one_witness:
  "\<exists>onehot.
     map_of (fst (build_caches_from_mask example_mask_fs example_src_dir [''spot'', ''S1''] ''S1''
        [''Clear'', ''Cloud''] [(0, 0, 255), (255, 255, 255)]))
       (seg_dir [''spot'', ''S1''] ''S1'' example_src_dir @ [''1_final.npy'']) = Some (NpyBool3 onehot) \<and>
     length (onehot ! 1 ! 1) = length [''Clear'', ''Cloud''] \<and>
     sum_list (map of_bool (onehot ! 1 ! 1)) = (1::nat)"
  by (rule onehot_exactly_one[where src = example_mask and band = "[[0, 1], [255, 2]]"])
     (simp_all add: example_mask_fs_def example_mask_def wf_tif_def is_array2_def)

lemma is_array2_onehot:
  "is_array2 H W m \<Longrightarrow> is_array2 H W (mask_onehot classes H W m)"
  by (simp add: mask_onehot_def Let_def is_array2_ior is_array2_map is_array2_zeros3)

lemma paint_class_nth:
  "is_array2 H W rgb \<Longrightarrow> is_array2 H W oh \<Longrightarrow> y < H \<Longrightarrow> x < W \<Longrightarrow>
   paint_class rgb oh k c ! y ! x = (if oh ! y ! x ! k then c else rgb ! y ! x)"
  by (simp add: is_array2_def paint_class_def list_all_length)

lemma foldl_paint_array2:
  "is_array2 H W rgb \<Longrightarrow> is_array2 H W oh \<Longrightarrow>
   is_array2 H W (foldl (\<lambda>r k. paint_class r oh k (cols ! k)) rgb ks)"
  by (induction ks arbitrary: rgb) (simp_all add: paint_class_array2)

lemma foldl_paint_nth:
  assumes "is_array2 H W rgb" "is_array2 H W oh" "y < H" "x < W"
  shows "foldl (\<lambda>r k. paint_class r oh k (cols ! k)) rgb ks ! y ! x =
     (case rev (filter (\<lambda>k. oh ! y ! x ! k) ks) of [] \<Rightarrow> rgb ! y ! x | k # _ \<Rightarrow> cols ! k)"
proof (induction ks rule: rev_induct)
  case Nil
  then show ?case by simp
next
  case (snoc k ks)
  show ?case
    using snoc assms paint_class_nth[OF foldl_paint_array2[OF assms(1,2)] assms(2,3,4)]
    by simp
qed

lemma upt_all_less: "K \<le> n \<Longrightarrow> list_all (\<lambda>k. k < n) [0..<K]"
  by (simp add: list_all_iff)

lemma build_caches_complete:
  assumes "map_of fs (id_src_dir @ [MASK_TIF_NAME]) = Some (Tif src)"
    and "tif_bands src = band # rest"
    and "length classes \<le> length class_colors"
  shows "snd (build_caches_from_mask fs id_src_dir proj_dir proj_name classes class_colors) = None"
    and "map_of (fst (build_caches_from_mask fs id_src_dir proj_dir proj_name classes class_colors))
           (seg_dir proj_dir proj_name id_src_dir @ [''mask.png'']) =
         Some (Png (foldl (\<lambda>r k. paint_class r
             (mask_onehot classes (tif_height src) (tif_width src) (where_eq 255 0 (astype_uint8 band)))
             k (class_colors ! k))
           (replicate (tif_height src) (replicate (tif_width src) (0, 0, 0))) [0..<length classes]))"
  using assms
  by (simp_all add: build_caches_from_mask_def Let_def save_lookup paint_loop_ok upt_all_less)

lemma uint8_code:
  assumes "0 \<le> v" "v \<le> 255"
  shows "((word_of_int v :: 8 word) = 0) = (v = 0)" and "((word_of_int v :: 8 word) = 255) = (v = 255)"
proof -
  have t: "take_bit 8 v = v" using assms by (simp add: take_bit_int_eq_self)
  show "((word_of_int v :: 8 word) = 0) = (v = 0)"
    using word_of_int_eq_iff[where 'a = 8, of v 0] t by simp
  show "((word_of_int v :: 8 word) = 255) = (v = 255)"
    using word_of_int_eq_iff[where 'a = 8, of v 255] t by simp
qed

lemma remap_nth:
  "is_array2 H W band \<Longrightarrow> y < H \<Longrightarrow> x < W \<Longrightarrow>
   where_eq 255 0 (astype_uint8 band) ! y ! x =
     (if (word_of_int (band ! y ! x) :: 8 word) = 255 then 0 else word_of_int (band ! y ! x))"
  by (simp add: where_eq_def astype_uint8_def is_array2_def list_all_length)

lemma wf_band: "wf_tif src \<Longrightarrow> tif_bands src = band # rest \<Longrightarrow>
   is_array2 (tif_height src) (tif_width src) band"
  by (simp add: wf_tif_def)

lemma one_of_two:
  assumes "i \<noteq> j"
  shows "(replicate K False)[i := b, j := \<not> b] = (replicate K False)[(if b then i else j) := True]"
proof (cases b)
  case True
  have "(replicate K False)[i := True, j := False] = ((replicate K False)[j := False])[i := True]"
    using assms by (simp add: list_update_swap)
  then show ?thesis using True by (simp add: replicate_update_same)
next
  case False
  then show ?thesis by (simp add: replicate_update_same)
qed

lemma index_iff:
  "k < length xs \<Longrightarrow> (k = index xs x) = (xs ! k = x \<and> x \<notin> set (take k xs))"
proof (induction xs arbitrary: k)
  case Nil
  then show ?case by simp
next
  case (Cons y ys)
  then show ?case by (cases k) auto
qed

lemma pixel_vector_positions:
  "(let z = replicate (length classes) False;
        z = (if ''Clear'' \<in> set classes then z[index classes ''Clear'' := v = 0] else z)
    in if ''Cloud'' \<in> set classes then z[index classes ''Cloud'' := v \<noteq> 0] else z) =
   map (\<lambda>k. classes ! k = ''Clear'' \<and> ''Clear'' \<notin> set (take k classes) \<and> v = 0 \<or>
            classes ! k = ''Cloud'' \<and> ''Cloud'' \<notin> set (take k classes) \<and> v \<noteq> 0)
     [0..<length classes]"
  (is "?l = map ?f _")
proof (rule nth_equalityI)
  show "length ?l = length (map ?f [0..<length classes])" by (simp add: Let_def)
next
  fix k assume "k < length ?l"
  then have k: "k < length classes" by (simp add: Let_def split: if_splits)
  have i: "(k = index classes n) = (classes ! k = n \<and> n \<notin> set (take k classes))" for n
    using k by (rule index_iff)
  have ne: "index classes ''Clear'' \<noteq> index classes ''Cloud''"
    if "''Clear'' \<in> set classes" "''Cloud'' \<in> set classes"
    using index_nth[OF that(1)] index_nth[OF that(2)] by auto
  have m: "classes ! k = n \<Longrightarrow> n \<in> set classes" for n using k by auto
  show "?l ! k = map ?f [0..<length classes] ! k"
    using k ne i[of "''Clear''"] i[of "''Cloud''"] m[of "''Clear''"] m[of "''Cloud''"]
    by (auto simp: Let_def nth_list_update index_less)
qed

lemma array2_eqI:
  assumes "is_array2 H W a" "is_array2 H W b"
    and "\<And>y x. y < H \<Longrightarrow> x < W \<Longrightarrow> a ! y ! x = b ! y ! x"
  shows "a = b"
proof (rule nth_equalityI)
  show "length a = length b" using assms(1,2) by (simp add: is_array2_def)
next
  fix y assume "y < length a"
  then have y: "y < H" using assms(1) by (simp add: is_array2_def)
  show "a ! y = b ! y"
  proof (rule nth_equalityI)
    show "length (a ! y) = length (b ! y)" using assms(1,2) y by (simp add: is_array2_nth)
  next
    fix x assume "x < length (a ! y)"
    then have "x < W" using assms(1) y by (simp add: is_array2_nth)
    then show "a ! y ! x = b ! y ! x" using y by (rule assms(3)[rotated])
  qed
qed

lemma mask_onehot_closed_form:
  assumes "is_array2 H W m"
  shows "mask_onehot classes H W m =
     map (map (\<lambda>v. map (\<lambda>k. classes ! k = ''Clear'' \<and> ''Clear'' \<notin> set (take k classes) \<and> v = 0 \<or>
                           classes ! k = ''Cloud'' \<and> ''Cloud'' \<notin> set (take k classes) \<and> v \<noteq> 0)
                    [0..<length classes])) m"
proof (rule array2_eqI)
  show "is_array2 H W (mask_onehot classes H W m)" using assms by (rule is_array2_onehot)
  show "is_array2 H W (map (map (\<lambda>v. map (\<lambda>k. classes ! k = ''Clear'' \<and> ''Clear'' \<notin> set (take k classes) \<and> v = 0 \<or>
                           classes ! k = ''Cloud'' \<and> ''Cloud'' \<notin> set (take k classes) \<and> v \<noteq> 0)
                    [0..<length classes])) m)"
    using assms by (simp add: is_array2_map)
next
  fix y x assume yx: "y < H" "x < W"
  have "mask_onehot classes H W m ! y ! x =
      map (\<lambda>k. classes ! k = ''Clear'' \<and> ''Clear'' \<notin> set (take k classes) \<and> m ! y ! x = 0 \<or>
                classes ! k = ''Cloud'' \<and> ''Cloud'' \<notin> set (take k classes) \<and> m ! y ! x \<noteq> 0)
        [0..<length classes]"
    unfolding mask_onehot_nth[OF assms yx] pixel_vector_positions[of classes "m ! y ! x", symmetric]
    by (simp add: Let_def)
  then show "mask_onehot classes H W m ! y ! x =
     map (map (\<lambda>v. map (\<lambda>k. classes ! k = ''Clear'' \<and> ''Clear'' \<notin> set (take k classes) \<and> v = 0 \<or>
                           classes ! k = ''Cloud'' \<and> ''Cloud'' \<notin> set (take k classes) \<and> v \<noteq> 0)
                    [0..<length classes])) m ! y ! x"
    by (simp add: cond_nth[OF assms yx])
qed

text \<open>
  C2. A pixel code 255 is rewritten to 0 before classification. On a class table with
  both names, codes 0 and 255 set the channel at the first position where \<open>Clear\<close>
  stands in the table and no other, and every code from 1 to 254 sets the channel at the
  first position where \<open>Cloud\<close> stands and no other.
\<close>

theorem remap_classification:
  assumes "map_of fs (id_src_dir @ [MASK_TIF_NAME]) = Some (Tif src)"
    and "wf_tif src" and "tif_bands src = [band]"
    and "''Clear'' \<in> set classes" and "''Cloud'' \<in> set classes"
    and "y < tif_height src" and "x < tif_width src"
    and "0 \<le> band ! y ! x" and "band ! y ! x \<le> 255"
  shows "\<exists>onehot.
     map_of (fst (build_caches_from_mask fs id_src_dir proj_dir proj_name classes class_colors))
       (seg_dir proj_dir proj_name id_src_dir @ [''1_final.npy'']) = Some (NpyBool3 onehot) \<and>
     where_eq 255 0 (astype_uint8 band) ! y ! x =
       (if band ! y ! x = 255 then 0 else word_of_int (band ! y ! x)) \<and>
     onehot ! y ! x =
       map (\<lambda>k. classes ! k = (if band ! y ! x = 0 \<or> band ! y ! x = 255 then ''Clear'' else ''Cloud'') \<and>
                (if band ! y ! x = 0 \<or> band ! y ! x = 255 then ''Clear'' else ''Cloud'')
                  \<notin> set (take k classes))
         [0..<length classes]"
proof -
  let ?m = "where_eq 255 0 (astype_uint8 band)"
  let ?oh = "mask_onehot classes (tif_height src) (tif_width src) ?m"
  let ?v = "band ! y ! x"
  have arr: "is_array2 (tif_height src) (tif_width src) ?m"
    using assms(2,3) by (rule band_array2)
  have r: "?m ! y ! x = (if ?v = 255 then 0 else word_of_int ?v)"
    using remap_nth[OF wf_band[OF assms(2,3)] assms(6,7)] uint8_code(2)[OF assms(8,9)] by simp
  have z: "(?m ! y ! x = 0) = (?v = 0 \<or> ?v = 255)"
    using r uint8_code(1)[OF assms(8,9)] by auto
  have "?oh ! y ! x =
      map (\<lambda>k. classes ! k = ''Clear'' \<and> ''Clear'' \<notin> set (take k classes) \<and> ?m ! y ! x = 0 \<or>
                classes ! k = ''Cloud'' \<and> ''Cloud'' \<notin> set (take k classes) \<and> ?m ! y ! x \<noteq> 0)
        [0..<length classes]"
    unfolding mask_onehot_closed_form[OF arr] by (simp add: cond_nth[OF arr assms(6,7)])
  then have vec: "?oh ! y ! x =
       map (\<lambda>k. classes ! k = (if ?v = 0 \<or> ?v = 255 then ''Clear'' else ''Cloud'') \<and>
                (if ?v = 0 \<or> ?v = 255 then ''Clear'' else ''Cloud'') \<notin> set (take k classes))
         [0..<length classes]"
    unfolding z by (cases "?v = 0 \<or> ?v = 255") simp_all
  show ?thesis using build_caches_npy(1)[OF assms(1,3)] r vec by blast
qed

theorem remap_classification_witness:
  "\<exists>onehot.
     map_of (fst (build_caches_from_mask example_mask_fs example_src_dir [''spot'', ''S1''] ''S1''
        [''Clear'', ''Cloud''] [(0, 0, 255), (255, 255, 255)]))
       (seg_dir [''spot'', ''S1''] ''S1'' example_src_dir @ [''1_final.npy'']) = Some (NpyBool3 onehot) \<and>
     where_eq 255 0 (astype_uint8 [[0, 1], [255, 2]]) ! 1 ! 0 = 0 \<and>
     onehot ! 1 ! 0 = [True, False] \<and>
     onehot ! 0 ! 1 = [False, True] \<and>
     onehot ! 1 ! 1 = [False, True]"
proof -
  have h: "map_of example_mask_fs (example_src_dir @ [MASK_TIF_NAME]) = Some (Tif example_mask)"
    "wf_tif example_mask" "tif_bands example_mask = [[[0, 1], [255, 2]]]"
    "''Clear'' \<in> set [''Clear'', ''Cloud'']" "''Cloud'' \<in> set [''Clear'', ''Cloud'']"
    by (simp_all add: example_mask_fs_def example_mask_def wf_tif_def is_array2_def)
  note t = remap_classification[OF h, of _ _ "[''spot'', ''S1'']" "''S1''"
      "[(0, 0, 255), (255, 255, 255)]"]
  have a: "(1::nat) < tif_height example_mask" "(0::nat) < tif_width example_mask"
    "(0::nat) < tif_height example_mask" "(1::nat) < tif_width example_mask"
    by (simp_all add: example_mask_def)
  show ?thesis
    using t[OF a(1,2)] t[OF a(3,4)] t[OF a(1,4)]
    by (auto simp: upt_rec)
qed

text \<open>
  C3. Whenever the mask raster can be read, whatever its pixel codes, the class names and
  the colours are, \<open>1_user.npy\<close> is written as a two-dimensional boolean array with
  \<open>height\<close> rows of \<open>width\<close> entries, all of them true.
\<close>

theorem user_mask_all_true:
  assumes "map_of fs (id_src_dir @ [MASK_TIF_NAME]) = Some (Tif src)"
    and "tif_bands src = band # rest"
  shows "\<exists>user.
     map_of (fst (build_caches_from_mask fs id_src_dir proj_dir proj_name classes class_colors))
       (seg_dir proj_dir proj_name id_src_dir @ [''1_user.npy'']) = Some (NpyBool2 user) \<and>
     length user = tif_height src \<and>
     list_all (\<lambda>row. length row = tif_width src \<and> list_all (\<lambda>b. b) row) user"
proof -
  have "list_all (\<lambda>row. length row = W \<and> list_all (\<lambda>b. b) row) (ones2 H W)" for H W
    by (simp add: ones2_def list_all_length)
  moreover have "length (ones2 H W) = H" for H W
    by (simp add: ones2_def)
  ultimately show ?thesis using build_caches_npy(2)[OF assms] by blast
qed

theorem user_mask_all_true_witness:
  "\<exists>user.
     map_of (fst (build_caches_from_mask example_mask_fs example_src_dir [''spot'', ''S1''] ''S1''
        [''Water''] []))
       (seg_dir [''spot'', ''S1''] ''S1'' example_src_dir @ [''1_user.npy'']) = Some (NpyBool2 user) \<and>
     length user = 2 \<and>
     list_all (\<lambda>row. length row = 2 \<and> list_all (\<lambda>b. b) row) user"
  using user_mask_all_true[where fs = example_mask_fs and id_src_dir = example_src_dir
      and src = example_mask and band = "[[0, 1], [255, 2]]" and rest = "[]"
      and classes = "[''Water'']" and class_colors = "[]"
      and proj_dir = "[''spot'', ''S1'']" and proj_name = "''S1''"]
  by (simp add: example_mask_fs_def example_mask_def)

text \<open>
  C7. For any class table (names paired with colours), with or without \<open>Clear\<close> and
  \<open>Cloud\<close>, and also for the empty table, the encoder ends without an exception and writes
  its three files. Channels follow the order of the class table: on a well-formed raster,
  channel \<open>k\<close> of a pixel is set exactly when \<open>k\<close> is the first position where \<open>Clear\<close>
  stands in the table and the remapped code is 0, or \<open>k\<close> is the first position where
  \<open>Cloud\<close> stands and the remapped code is not 0. A missing name therefore leaves its
  pixels with no channel set.
\<close>

theorem missing_class_tolerated:
  assumes "map_of fs (id_src_dir @ [MASK_TIF_NAME]) = Some (Tif src)"
    and "tif_bands src = [band]"
    and "length class_colors = length classes"
  shows "snd (build_caches_from_mask fs id_src_dir proj_dir proj_name classes class_colors) = None \<and>
    (\<exists>onehot user rgbmask.
       map_of (fst (build_caches_from_mask fs id_src_dir proj_dir proj_name classes class_colors))
         (seg_dir proj_dir proj_name id_src_dir @ [''1_final.npy'']) = Some (NpyBool3 onehot) \<and>
       map_of (fst (build_caches_from_mask fs id_src_dir proj_dir proj_name classes class_colors))
         (seg_dir proj_dir proj_name id_src_dir @ [''1_user.npy'']) = Some (NpyBool2 user) \<and>
       map_of (fst (build_caches_from_mask fs id_src_dir proj_dir proj_name classes class_colors))
         (seg_dir proj_dir proj_name id_src_dir @ [''mask.png'']) = Some (Png rgbmask) \<and>
       (wf_tif src \<longrightarrow>
          onehot =
            map (map (\<lambda>v. map (\<lambda>k. classes ! k = ''Clear'' \<and> ''Clear'' \<notin> set (take k classes) \<and> v = 0 \<or>
                                  classes ! k = ''Cloud'' \<and> ''Cloud'' \<notin> set (take k classes) \<and> v \<noteq> 0)
                           [0..<length classes]))
              (where_eq 255 0 (astype_uint8 band))))"
proof -
  have le: "length classes \<le> length class_colors" using assms(3) by simp
  have "mask_onehot classes (tif_height src) (tif_width src) (where_eq 255 0 (astype_uint8 band)) =
      map (map (\<lambda>v. map (\<lambda>k. classes ! k = ''Clear'' \<and> ''Clear'' \<notin> set (take k classes) \<and> v = 0 \<or>
                            classes ! k = ''Cloud'' \<and> ''Cloud'' \<notin> set (take k classes) \<and> v \<noteq> 0)
                     [0..<length classes]))
        (where_eq 255 0 (astype_uint8 band))" if "wf_tif src"
    using mask_onehot_closed_form[OF band_array2[OF that assms(2)]] .
  then show ?thesis
    using build_caches_npy[OF assms(1,2)] build_caches_complete[OF assms(1,2) le]
    by blast
qed

theorem missing_class_tolerated_witness:
  "snd (build_caches_from_mask example_mask_fs example_src_dir [''spot'', ''S1''] ''S1''
      [''Other'', ''Cloud''] [(0, 0, 255), (255, 255, 255)]) = None \<and>
   (\<exists>user rgbmask.
       map_of (fst (build_caches_from_mask example_mask_fs example_src_dir [''spot'', ''S1''] ''S1''
           [''Other'', ''Cloud''] [(0, 0, 255), (255, 255, 255)]))
         (seg_dir [''spot'', ''S1''] ''S1'' example_src_dir @ [''1_final.npy'']) =
         Some (NpyBool3 [[[False, False], [False, True]], [[False, False], [False, True]]]) \<and>
       map_of (fst (build_caches_from_mask example_mask_fs example_src_dir [''spot'', ''S1''] ''S1''
           [''Other'', ''Cloud''] [(0, 0, 255), (255, 255, 255)]))
         (seg_dir [''spot'', ''S1''] ''S1'' example_src_dir @ [''1_user.npy'']) = Some (NpyBool2 user) \<and>
       map_of (fst (build_caches_from_mask example_mask_fs example_src_dir [''spot'', ''S1''] ''S1''
           [''Other'', ''Cloud''] [(0, 0, 255), (255, 255, 255)]))
         (seg_dir [''spot'', ''S1''] ''S1'' example_src_dir @ [''mask.png'']) = Some (Png rgbmask)) \<and>
   snd (build_caches_from_mask example_mask_fs example_src_dir [''spot'', ''S1''] ''S1'' [] []) = None \<and>
   (\<exists>user rgbmask.
       map_of (fst (build_caches_from_mask example_mask_fs example_src_dir [''spot'', ''S1''] ''S1'' [] []))
         (seg_dir [''spot'', ''S1''] ''S1'' example_src_dir @ [''1_final.npy'']) =
         Some (NpyBool3 [[[], []], [[], []]]) \<and>
       map_of (fst (build_caches_from_mask example_mask_fs example_src_dir [''spot'', ''S1''] ''S1'' [] []))
         (seg_dir [''spot'', ''S1''] ''S1'' example_src_dir @ [''1_user.npy'']) = Some (NpyBool2 user) \<and>
       map_of (fst (build_caches_from_mask example_mask_fs example_src_dir [''spot'', ''S1''] ''S1'' [] []))
         (seg_dir [''spot'', ''S1''] ''S1'' example_src_dir @ [''mask.png'']) = Some (Png rgbmask))"
proof -
  have h: "map_of example_mask_fs (example_src_dir @ [MASK_TIF_NAME]) = Some (Tif example_mask)"
    "tif_bands example_mask = [[[0, 1], [255, 2]]]"
    by (simp_all add: example_mask_fs_def example_mask_def)
  have wf: "wf_tif example_mask"
    by (simp add: example_mask_def wf_tif_def is_array2_def)
  have m: "where_eq 255 0 (astype_uint8 [[0, 1], [255, 2]]) = [[0, 1], [0, 2]]"
    by (simp add: where_eq_def astype_uint8_def)
  show ?thesis
    using missing_class_tolerated[OF h, of "[(0, 0, 255), (255, 255, 255)]" "[''Other'', ''Cloud'']"
        "[''spot'', ''S1'']" "''S1''"]
      missing_class_tolerated[OF h, of "[]" "[]" "[''spot'', ''S1'']" "''S1''"] wf
    by (auto simp: m upt_rec)
qed

text \<open>
  C10. In \<open>mask.png\<close> a pixel takes the colour of the last channel, in class-table order,
  that is true in its one-hot vector, and stays black, \<open>(0, 0, 0)\<close>, when no channel is
  true.
\<close>

theorem preview_colour:
  assumes "map_of fs (id_src_dir @ [MASK_TIF_NAME]) = Some (Tif src)"
    and "wf_tif src" and "tif_bands src = [band]"
    and "length classes \<le> length class_colors"
    and "y < tif_height src" and "x < tif_width src"
  shows "\<exists>onehot rgbmask.
       map_of (fst (build_caches_from_mask fs id_src_dir proj_dir proj_name classes class_colors))
         (seg_dir proj_dir proj_name id_src_dir @ [''1_final.npy'']) = Some (NpyBool3 onehot) \<and>
       map_of (fst (build_caches_from_mask fs id_src_dir proj_dir proj_name classes class_colors))
         (seg_dir proj_dir proj_name id_src_dir @ [''mask.png'']) = Some (Png rgbmask) \<and>
       rgbmask ! y ! x =
         (case rev (filter (\<lambda>k. onehot ! y ! x ! k) [0..<length classes]) of
            [] \<Rightarrow> (0, 0, 0)
          | k # _ \<Rightarrow> class_colors ! k)"
proof -
  let ?H = "tif_height src" and ?W = "tif_width src"
  let ?oh = "mask_onehot classes ?H ?W (where_eq 255 0 (astype_uint8 band))"
  let ?black = "replicate ?H (replicate ?W (0, 0, 0)) :: colour list list"
  have oh: "is_array2 ?H ?W ?oh"
    using band_array2[OF assms(2,3)] by (rule is_array2_onehot)
  have bl: "is_array2 ?H ?W ?black" by (simp add: is_array2_def list_all_length)
  have "?black ! y ! x = (0, 0, 0)" using assms(5,6) by simp
  then have "foldl (\<lambda>r k. paint_class r ?oh k (class_colors ! k)) ?black [0..<length classes] ! y ! x =
      (case rev (filter (\<lambda>k. ?oh ! y ! x ! k) [0..<length classes]) of
         [] \<Rightarrow> (0, 0, 0) | k # _ \<Rightarrow> class_colors ! k)"
    using foldl_paint_nth[OF bl oh assms(5,6), of class_colors "[0..<length classes]"]
    by (simp split: list.splits)
  then show ?thesis
    using build_caches_npy(1)[OF assms(1,3)] build_caches_complete(2)[OF assms(1,3,4)]
    by blast
qed

theorem preview_colour_witness:
  "\<exists>onehot rgbmask.
       map_of (fst (build_caches_from_mask example_mask_fs example_src_dir [''spot'', ''S1''] ''S1''
           [''Cloud'', ''Cloud''] [(0, 0, 255), (255, 255, 255)]))
         (seg_dir [''spot'', ''S1''] ''S1'' example_src_dir @ [''1_final.npy'']) = Some (NpyBool3 onehot) \<and>
       map_of (fst (build_caches_from_mask example_mask_fs example_src_dir [''spot'', ''S1''] ''S1''
           [''Cloud'', ''Cloud''] [(0, 0, 255), (255, 255, 255)]))
         (seg_dir [''spot'', ''S1''] ''S1'' example_src_dir @ [''mask.png'']) = Some (Png rgbmask) \<and>
       rgbmask ! 0 ! 0 =
         (case rev (filter (\<lambda>k. onehot ! 0 ! 0 ! k) [0..<length [''Cloud'', ''Cloud'']]) of
            [] \<Rightarrow> (0, 0, 0)
          | k # _ \<Rightarrow> [(0, 0, 255), (255, 255, 255)] ! k)"
  by (rule preview_colour[where src = example_mask and band = "[[0, 1], [255, 2]]"])
     (simp_all add: example_mask_fs_def example_mask_def wf_tif_def is_array2_def)

lemma unlink_lookup: "map_of (unlink fs p) q = (if q = p then None else map_of fs q)"
  by (simp add: unlink_def delete_conv')

lemma moveaxis_shape:
  "length (moveaxis_0_last H W arr) = H"
  "y < H \<Longrightarrow> length (moveaxis_0_last H W arr ! y) = W"
  "y < H \<Longrightarrow> x < W \<Longrightarrow> length (moveaxis_0_last H W arr ! y ! x) = length arr"
  by (simp_all add: moveaxis_0_last_def)

lemma moveaxis_nth:
  "y < H \<Longrightarrow> x < W \<Longrightarrow> c < length arr \<Longrightarrow> moveaxis_0_last H W arr ! y ! x ! c = arr ! c ! y ! x"
  by (simp add: moveaxis_0_last_def)

lemma astype_nth:
  "y < length a \<Longrightarrow> x < length (a ! y) \<Longrightarrow> c < length (a ! y ! x) \<Longrightarrow>
   astype f a ! y ! x ! c = f (a ! y ! x ! c)"
  by (simp add: astype_def)

lemma astype_shape:
  "length (astype f a) = length a"
  "y < length a \<Longrightarrow> length (astype f a ! y) = length (a ! y)"
  "y < length a \<Longrightarrow> x < length (a ! y) \<Longrightarrow> length (astype f a ! y ! x) = length (a ! y ! x)"
  by (simp_all add: astype_def)

text \<open>
  C6. The array saved by \<open>write_rgb_npy_to_dest\<close> has the axes (height, width, channel):
  it has \<open>height\<close> rows of \<open>width\<close> pixels of as many channels as the raster has bands,
  and the value of band \<open>c\<close> at row \<open>y\<close>, column \<open>x\<close> of the raster stands, converted to
  a 32-bit float, at index \<open>(y, x, c)\<close>.
\<close>

theorem rgb_axis_order:
  assumes "map_of fs tif_path = Some (Tif src)" and "tif_path \<noteq> dest_npy"
    and "c < length (tif_bands src)" and "y < tif_height src" and "x < tif_width src"
  shows "snd (write_rgb_npy_to_dest to_float fs tif_path dest_npy) = None \<and>
    (\<exists>arr. map_of (fst (write_rgb_npy_to_dest to_float fs tif_path dest_npy)) dest_npy =
             Some (NpyFloat32 arr) \<and>
       length arr = tif_height src \<and> length (arr ! y) = tif_width src \<and>
       length (arr ! y ! x) = length (tif_bands src) \<and>
       arr ! y ! x ! c = to_float (tif_bands src ! c ! y ! x))"
proof -
  let ?fs = "if path_exists fs dest_npy then unlink fs dest_npy else fs"
  let ?mv = "moveaxis_0_last (tif_height src) (tif_width src) (tif_bands src)"
  have open_tif: "map_of ?fs tif_path = Some (Tif src)"
    using assms(1,2) by (simp add: unlink_lookup)
  have res: "write_rgb_npy_to_dest to_float fs tif_path dest_npy =
      (save ?fs dest_npy (NpyFloat32 (astype to_float ?mv)), None)"
    using open_tif by (simp add: write_rgb_npy_to_dest_def Let_def)
  have sh: "length ?mv = tif_height src" "length (?mv ! y) = tif_width src"
      "length (?mv ! y ! x) = length (tif_bands src)"
    using assms(4,5) by (simp_all add: moveaxis_shape)
  have "astype to_float ?mv ! y ! x ! c = to_float (tif_bands src ! c ! y ! x)"
    using assms(3,4,5) sh by (simp add: astype_nth moveaxis_nth)
  moreover have "length (astype to_float ?mv) = tif_height src"
      "length (astype to_float ?mv ! y) = tif_width src"
      "length (astype to_float ?mv ! y ! x) = length (tif_bands src)"
    using assms(4,5) sh by (simp_all add: astype_shape)
  ultimately show ?thesis unfolding res by (simp add: save_lookup)
qed

theorem rgb_axis_order_witness:
  "snd (write_rgb_npy_to_dest real_of_int [([''rgb.tif''], Tif example_rgb)] [''rgb.tif''] [''rgb.npy'']) = None \<and>
    (\<exists>arr. map_of (fst (write_rgb_npy_to_dest real_of_int [([''rgb.tif''], Tif example_rgb)]
                 [''rgb.tif''] [''rgb.npy''])) [''rgb.npy''] = Some (NpyFloat32 arr) \<and>
       length arr = 1 \<and> length (arr ! 0) = 2 \<and> length (arr ! 0 ! 1) = 3 \<and>
       arr ! 0 ! 1 ! 2 = 31)"
  using rgb_axis_order[where fs = "[([''rgb.tif''], Tif example_rgb)]" and tif_path = "[''rgb.tif'']"
      and dest_npy = "[''rgb.npy'']" and src = example_rgb and c = 2 and y = 0 and x = 1
      and to_float = real_of_int]
  by (auto simp: example_rgb_def)

lemma src_not_dst: "preview_src i \<noteq> preview_dst j"
  by (simp add: preview_src_def preview_dst_def SPOT_ROOT_def OUTPUT_DIR_def)

lemma dst_inj: "(preview_dst i = preview_dst j) = (i = j)"
  by (simp add: preview_dst_def)

lemma harvest_loop_src:
  "map_of (h_fs (harvest_loop ids s)) (preview_src j) = map_of (h_fs s) (preview_src j)"
  by (induction ids arbitrary: s) (auto simp: Let_def save_lookup src_not_dst split: option.splits)

lemma harvest_loop_other:
  "p \<notin> preview_dst ` set ids \<Longrightarrow> map_of (h_fs (harvest_loop ids s)) p = map_of (h_fs s) p"
  by (induction ids arbitrary: s) (auto simp: Let_def save_lookup split: option.splits)

lemma harvest_loop_miss:
  "map_of (h_fs s) (preview_src i) = None \<Longrightarrow>
   map_of (h_fs (harvest_loop ids s)) (preview_dst i) = map_of (h_fs s) (preview_dst i)"
  by (induction ids arbitrary: s)
     (auto simp: Let_def save_lookup src_not_dst dst_inj split: option.splits)

lemma harvest_loop_copy:
  "i \<in> set ids \<Longrightarrow> map_of (h_fs s) (preview_src i) = Some f \<Longrightarrow>
   map_of (h_fs (harvest_loop ids s)) (preview_dst i) = Some f"
proof (induction ids arbitrary: s)
  case Nil
  then show ?case by simp
next
  case (Cons a ids)
  show ?case
  proof (cases "i \<in> set ids")
    case True
    show ?thesis
      using Cons.IH[OF True] Cons.prems(2)
      by (auto simp: Let_def save_lookup src_not_dst split: option.splits)
  next
    case False
    then have a: "a = i" using Cons.prems(1) by simp
    have "preview_dst i \<notin> preview_dst ` set ids" using False by (auto simp: dst_inj)
    then show ?thesis using Cons.prems(2) a
      by (simp add: Let_def harvest_loop_other save_lookup)
  qed
qed

lemma harvest_loop_missing:
  "missing (harvest_loop ids s) =
     missing s + length (filter (\<lambda>i. map_of (h_fs s) (preview_src i) = None) ids)"
proof (induction ids arbitrary: s)
  case Nil
  then show ?case by simp
next
  case (Cons a ids)
  show ?case
    by (cases "map_of (h_fs s) (preview_src a)")
       (simp_all add: Let_def Cons.IH save_lookup src_not_dst)
qed

lemma harvest_loop_ok: "ok (harvest_loop ids s) = ok s"
  by (induction ids arbitrary: s) (auto simp: Let_def split: option.splits)

lemma harvest_loop_printed:
  "printed (harvest_loop ids s) =
     printed s @ map (\<lambda>i. if map_of (h_fs s) (preview_src i) = None
                          then MISS i (preview_src i) else OK i (preview_dst i)) ids"
proof (induction ids arbitrary: s)
  case Nil
  then show ?case by simp
next
  case (Cons a ids)
  show ?case
    by (cases "map_of (h_fs s) (preview_src a)")
       (simp_all add: Let_def Cons.IH save_lookup src_not_dst)
qed

lemma harvest_all:
  "printed (harvest fs ids) =
       map (\<lambda>i. if path_exists fs (preview_src i)
                 then OK i (preview_dst i) else MISS i (preview_src i)) ids"
  "missing (harvest fs ids) = length (filter (\<lambda>i. \<not> path_exists fs (preview_src i)) ids)"
  "ok (harvest fs ids) = 0"
  "i \<in> set ids \<Longrightarrow> map_of (h_fs (harvest fs ids)) (preview_dst i) =
       (if path_exists fs (preview_src i) then map_of fs (preview_src i)
        else map_of fs (preview_dst i))"
  "p \<notin> preview_dst ` set ids \<Longrightarrow> map_of (h_fs (harvest fs ids)) p = map_of fs p"
proof -
  let ?s = "\<lparr>h_fs = fs, ok = 0, missing = 0, printed = []\<rparr>"
  show "printed (harvest fs ids) =
       map (\<lambda>i. if path_exists fs (preview_src i)
                 then OK i (preview_dst i) else MISS i (preview_src i)) ids"
    by (simp add: harvest_def harvest_loop_printed path_exists_def if_distrib cong: if_cong)
  show "missing (harvest fs ids) = length (filter (\<lambda>i. \<not> path_exists fs (preview_src i)) ids)"
    by (simp add: harvest_def harvest_loop_missing path_exists_def)
  show "ok (harvest fs ids) = 0"
    by (simp add: harvest_def harvest_loop_ok)
  show "map_of (h_fs (harvest fs ids)) (preview_dst i) =
       (if path_exists fs (preview_src i) then map_of fs (preview_src i)
        else map_of fs (preview_dst i))" if "i \<in> set ids"
  proof (cases "map_of fs (preview_src i)")
    case None
    then show ?thesis using harvest_loop_miss[of ?s i ids] by (simp add: harvest_def path_exists_def)
  next
    case (Some f)
    then show ?thesis using harvest_loop_copy[OF that, of ?s f]
      by (simp add: harvest_def path_exists_def)
  qed
  show "map_of (h_fs (harvest fs ids)) p = map_of fs p" if "p \<notin> preview_dst ` set ids"
    using harvest_loop_other[OF that, of ?s] by (simp add: harvest_def)
qed

text \<open>
  C9. For every list of identifiers the harvester runs to the end of the list. It prints
  one line per identifier, in order: a miss for each identifier whose preview
  \<open>spot/<ID>/<ID>.iris/segmentation/<ID>/mask.png\<close> is absent, a copy for each whose
  preview exists. The miss counter is the number of absent previews. A present preview is
  copied to \<open>save_mask/<ID>.png\<close>, nothing is written for an absent one, and no other
  path changes.
\<close>

theorem harvest_misses_continue:
  "printed (harvest fs ids) =
       map (\<lambda>i. if path_exists fs [''spot'', i, i @ ''.iris'', ''segmentation'', i, ''mask.png'']
                 then OK i [''save_mask'', i @ ''.png'']
                 else MISS i [''spot'', i, i @ ''.iris'', ''segmentation'', i, ''mask.png'']) ids \<and>
   missing (harvest fs ids) =
     length (filter (\<lambda>i. \<not> path_exists fs
                  [''spot'', i, i @ ''.iris'', ''segmentation'', i, ''mask.png'']) ids) \<and>
   (i \<in> set ids \<longrightarrow>
      map_of (h_fs (harvest fs ids)) [''save_mask'', i @ ''.png''] =
        (if path_exists fs [''spot'', i, i @ ''.iris'', ''segmentation'', i, ''mask.png'']
         then map_of fs [''spot'', i, i @ ''.iris'', ''segmentation'', i, ''mask.png'']
         else map_of fs [''save_mask'', i @ ''.png''])) \<and>
   (p \<notin> (\<lambda>i. [''save_mask'', i @ ''.png'']) ` set ids \<longrightarrow>
      map_of (h_fs (harvest fs ids)) p = map_of fs p)"
  using harvest_all(1,2)[of fs ids] harvest_all(4)[of i ids fs] harvest_all(5)[of p ids fs]
  by (simp add: preview_src_def preview_dst_def SPOT_ROOT_def OUTPUT_DIR_def)

theorem harvest_misses_continue_witness:
  "printed (harvest example_spot [''A'', ''B'', ''C'']) =
       [MISS ''A'' [''spot'', ''A'', ''A.iris'', ''segmentation'', ''A'', ''mask.png''],
        OK ''B'' [''save_mask'', ''B.png''],
        MISS ''C'' [''spot'', ''C'', ''C.iris'', ''segmentation'', ''C'', ''mask.png'']] \<and>
   missing (harvest example_spot [''A'', ''B'', ''C'']) = 2 \<and>
   map_of (h_fs (harvest example_spot [''A'', ''B'', ''C''])) [''save_mask'', ''B.png''] =
     Some example_png \<and>
   map_of (h_fs (harvest example_spot [''A'', ''B'', ''C''])) [''save_mask'', ''A.png''] = None \<and>
   map_of (h_fs (harvest example_spot [''A'', ''B'', ''C'']))
       [''spot'', ''B'', ''B.iris'', ''segmentation'', ''B'', ''mask.png''] = Some example_png"
  using harvest_misses_continue[of example_spot "[''A'', ''B'', ''C'']" "''B''"
      "[''spot'', ''B'', ''B.iris'', ''segmentation'', ''B'', ''mask.png'']"]
    harvest_misses_continue[of example_spot "[''A'', ''B'', ''C'']" "''A''" "[]"]
  by (simp add: example_spot_def path_exists_def)

lemma getitem_obj: "getitem (JObj kvs) k = (case map_of kvs k of Some v \<Rightarrow> Inr v | None \<Rightarrow> Inl KeyError)"
  by (simp add: getitem_def)

lemma setitem_obj: "setitem (JObj kvs) k v = Inr (JObj (AList.update k v kvs))"
  by (simp add: setitem_def)

lemma and_then_Inr: "and_then (Inr x) f = f x"
  by (simp add: and_then_def)

lemma scene_cfg_ok:
  assumes "map_of kvs ''images'' = Some (JObj ikvs)"
    and "map_of kvs ''segmentation'' = None \<or> map_of kvs ''segmentation'' = Some (JObj skvs)"
  shows "\<exists>cfg. scene_cfg (JObj kvs) id_name W H = Inr cfg"
  using assms
  by (auto simp: scene_cfg_def deep_copy_def Let_def and_then_Inr getitem_obj setitem_obj
      setdefault_def update_conv' map_add_def)

lemma scene_cfg_fields:
  assumes "scene_cfg base_cfg id_name W H = Inr cfg"
  shows "\<exists>images seg.
     getitem cfg ''name'' = Inr (JStr id_name) \<and>
     getitem cfg ''images'' = Inr images \<and>
     getitem images ''path'' = Inr (JStr ''images/{id}/rgb.npy'') \<and>
     getitem images ''shape'' = Inr (JArr [JInt (int W), JInt (int H)]) \<and>
     getitem cfg ''segmentation'' = Inr seg \<and>
     getitem seg ''mask_area'' = Inr (JArr [JInt 0, JInt 0, JInt (int W), JInt (int H)])"
proof -
  obtain kvs where b: "base_cfg = JObj kvs"
    using assms by (cases base_cfg) (simp_all add: scene_cfg_def deep_copy_def setitem_def and_then_def)
  obtain ikvs where i: "map_of kvs ''images'' = Some (JObj ikvs)"
    using assms unfolding b
    by (auto simp: scene_cfg_def deep_copy_def Let_def and_then_Inr getitem_obj setitem_obj
        update_conv' and_then_def setitem_def split: option.splits json.splits)
  let ?i2 = "AList.update ''shape'' (JArr [JInt (int W), JInt (int H)])
      (AList.update ''path'' (JStr ''images/{id}/rgb.npy'') ikvs)"
  let ?k3 = "AList.update ''images'' (JObj ?i2)
      (AList.update ''images'' (JObj (AList.update ''path'' (JStr ''images/{id}/rgb.npy'') ikvs))
        (AList.update ''name'' (JStr id_name) kvs))"
  show ?thesis
  proof (cases "map_of kvs ''segmentation''")
    case None
    then show ?thesis using assms i unfolding b
      by (auto simp: scene_cfg_def deep_copy_def Let_def and_then_Inr getitem_obj setitem_obj
          setdefault_def update_conv' map_add_def)
  next
    case (Some s)
    then obtain skvs where "s = JObj skvs" using assms i unfolding b
      by (cases s)
         (auto simp: scene_cfg_def deep_copy_def Let_def and_then_Inr getitem_obj setitem_obj
          setdefault_def update_conv' map_add_def setitem_def and_then_def)
    then show ?thesis using Some assms i unfolding b
      by (auto simp: scene_cfg_def deep_copy_def Let_def and_then_Inr getitem_obj setitem_obj
          setdefault_def update_conv' map_add_def)
  qed
qed

lemma neq_by_last: "last (p @ [a]) \<noteq> last (q @ [b]) \<Longrightarrow> p @ [a] \<noteq> q @ [b]"
  by auto

lemma json_name_neq: "id_name @ ''.json'' \<noteq> ''f_1dpwseg.tif''"
proof
  assume "id_name @ ''.json'' = ''f_1dpwseg.tif''"
  then have "last (id_name @ ''.json'') = last ''f_1dpwseg.tif''" by simp
  then show False by simp
qed

lemma write_rgb_other:
  "q \<noteq> dest_npy \<Longrightarrow>
   map_of (fst (write_rgb_npy_to_dest to_float fs tif_path dest_npy)) q = map_of fs q"
  by (auto simp: write_rgb_npy_to_dest_def Let_def save_lookup unlink_lookup
      split: option.splits content.splits)

lemma write_rgb_ok:
  "map_of fs tif_path = Some (Tif src) \<Longrightarrow> tif_path \<noteq> dest_npy \<Longrightarrow>
   snd (write_rgb_npy_to_dest to_float fs tif_path dest_npy) = None"
  by (simp add: write_rgb_npy_to_dest_def Let_def unlink_lookup)

lemma remove_source_other:
  "q \<noteq> id_src_dir @ [''rgb.npy''] \<Longrightarrow>
   map_of (remove_source_rgb_npy fs id_src_dir) q = map_of fs q"
  by (simp add: remove_source_rgb_npy_def Let_def unlink_lookup)

lemma build_caches_other:
  assumes "q \<noteq> seg_dir proj_dir proj_name id_src_dir @ [''1_final.npy'']"
    and "q \<noteq> seg_dir proj_dir proj_name id_src_dir @ [''1_user.npy'']"
    and "q \<noteq> seg_dir proj_dir proj_name id_src_dir @ [''mask.png'']"
  shows "map_of (fst (build_caches_from_mask fs id_src_dir proj_dir proj_name classes class_colors)) q
     = map_of fs q"
  using assms
  by (auto simp: build_caches_from_mask_def Let_def save_lookup
      split: option.splits content.splits list.splits sum.splits)

lemma compute_center_cong:
  "map_of fs' tif_path = map_of fs tif_path \<Longrightarrow>
   compute_center_latlon transform fs' tif_path = compute_center_latlon transform fs tif_path"
  by (simp add: compute_center_latlon_def)

lemma build_caches_no_mask:
  "map_of fs (id_src_dir @ [MASK_TIF_NAME]) = None \<Longrightarrow>
   build_caches_from_mask fs id_src_dir proj_dir proj_name classes class_colors = (fs, None)"
  by (simp add: build_caches_from_mask_def)

lemma process_scene_trace:
  assumes tif: "map_of fs (images_root @ [id_name, ''rgb.tif'']) = Some (Tif src)"
    and geo: "compute_center_latlon transform fs (images_root @ [id_name, ''rgb.tif'']) = Inr latlon"
    and cfg: "scene_cfg base_cfg id_name (tif_width src) (tif_height src) = Inr cfg"
  shows "process_scene transform to_float base_cfg classes class_colors base_json_path images_root
       fs id_name =
     (case build_caches_from_mask
             (scene_fs to_float base_json_path images_root fs id_name latlon cfg)
             (images_root @ [id_name]) (parent base_json_path @ [''spot'', id_name]) id_name
             classes class_colors of
        (fs, Some e) \<Rightarrow> (fs, Raised e)
      | (fs, None) \<Rightarrow>
          (fs, Configured (''iris label '' @
             path_str (parent base_json_path @ [''spot'', id_name, id_name @ ''.json'']))))"
proof -
  let ?tif = "images_root @ [id_name, ''rgb.tif'']"
  let ?dest = "parent base_json_path @ [''spot'', id_name, ''images'', id_name, ''rgb.npy'']"
  have ne: "?tif \<noteq> ?dest"
    using neq_by_last[of "images_root @ [id_name]" "''rgb.tif''"
        "parent base_json_path @ [''spot'', id_name, ''images'', id_name]" "''rgb.npy''"]
    by simp
  obtain fs1 where w: "write_rgb_npy_to_dest to_float fs ?tif ?dest = (fs1, None)"
    using write_rgb_ok[OF tif ne, of to_float] by (cases "write_rgb_npy_to_dest to_float fs ?tif ?dest") simp
  have fs1: "fs1 = fst (write_rgb_npy_to_dest to_float fs ?tif ?dest)" by (simp add: w)
  have l1: "map_of fs1 ?tif = map_of fs ?tif"
    unfolding fs1 using ne by (rule write_rgb_other)
  have g1: "compute_center_latlon transform fs1 ?tif = Inr latlon"
    using compute_center_cong[OF l1] geo by simp
  have s: "scene_fs to_float base_json_path images_root fs id_name latlon cfg =
      save (remove_source_rgb_npy
             (case latlon of
                None \<Rightarrow> fs1
              | Some (lat, lon) \<Rightarrow>
                  save fs1 (parent base_json_path @ [''spot'', id_name, ''images'', id_name, ''metadata.json''])
                    (JsonFile (metadata id_name lat lon)))
             (images_root @ [id_name]))
        (parent base_json_path @ [''spot'', id_name, id_name @ ''.json'']) (JsonFile cfg)"
    by (cases latlon) (auto simp: scene_fs_def Let_def fs1)
  show ?thesis
    unfolding s using tif w g1 cfg
    by (cases latlon)
       (auto simp: process_scene_def Let_def path_exists_def get_width_height_from_tif_def
        safe_make_clean_dest_dir_def OVERWRITE_JSON_def split: prod.splits option.splits)
qed

lemma last_neq: "last q \<noteq> last p \<Longrightarrow> q \<noteq> p"
  by auto

lemma scene_fs_other:
  assumes "q \<noteq> parent base_json_path @ [''spot'', id_name, ''images'', id_name, ''rgb.npy'']"
    and "q \<noteq> parent base_json_path @ [''spot'', id_name, ''images'', id_name, ''metadata.json'']"
    and "q \<noteq> images_root @ [id_name, ''rgb.npy'']"
    and "q \<noteq> parent base_json_path @ [''spot'', id_name, id_name @ ''.json'']"
  shows "map_of (scene_fs to_float base_json_path images_root fs id_name latlon cfg) q = map_of fs q"
  using assms
  by (cases latlon) (auto simp: scene_fs_def Let_def save_lookup remove_source_other write_rgb_other)

lemma scene_fs_json:
  "map_of (scene_fs to_float base_json_path images_root fs id_name latlon cfg)
     (parent base_json_path @ [''spot'', id_name, id_name @ ''.json'']) = Some (JsonFile cfg)"
  by (simp add: scene_fs_def Let_def save_lookup)

lemma scene_fs_metadata:
  "map_of (scene_fs to_float base_json_path images_root fs id_name None cfg)
     (parent base_json_path @ [''spot'', id_name, ''images'', id_name, ''metadata.json'']) =
   map_of fs (parent base_json_path @ [''spot'', id_name, ''images'', id_name, ''metadata.json''])"
proof -
  have "parent base_json_path @ [''spot'', id_name, ''images'', id_name, ''metadata.json''] \<noteq>
      (images_root @ [id_name]) @ [''rgb.npy'']"
    by (rule last_neq) simp
  then show ?thesis
    by (simp add: scene_fs_def Let_def save_lookup remove_source_other write_rgb_other)
qed

lemma project_json_written:
  assumes tif: "map_of fs (images_root @ [id_name, ''rgb.tif'']) = Some (Tif src)"
    and geo: "compute_center_latlon transform fs (images_root @ [id_name, ''rgb.tif'']) = Inr latlon"
    and cfg: "scene_cfg base_cfg id_name (tif_width src) (tif_height src) = Inr cfg"
  shows "map_of (fst (process_scene transform to_float base_cfg classes class_colors
            base_json_path images_root fs id_name))
          (parent base_json_path @ [''spot'', id_name, id_name @ ''.json'']) = Some (JsonFile cfg)"
proof -
  let ?b = "build_caches_from_mask
             (scene_fs to_float base_json_path images_root fs id_name latlon cfg)
             (images_root @ [id_name]) (parent base_json_path @ [''spot'', id_name]) id_name
             classes class_colors"
  have "fst (process_scene transform to_float base_cfg classes class_colors
            base_json_path images_root fs id_name) = fst ?b"
    unfolding process_scene_trace[OF tif geo cfg] by (simp split: prod.splits option.splits)
  moreover have "map_of (fst ?b) (parent base_json_path @ [''spot'', id_name, id_name @ ''.json'']) =
      map_of (scene_fs to_float base_json_path images_root fs id_name latlon cfg)
        (parent base_json_path @ [''spot'', id_name, id_name @ ''.json''])"
    by (rule build_caches_other) (simp_all add: seg_dir_def)
  ultimately show ?thesis by (simp add: scene_fs_json)
qed

lemma example_tif:
  "map_of example_fs ([''home'', ''spot'', ''images''] @ [''S1'', ''rgb.tif'']) =
     Some (Tif (example_rgb\<lparr>tif_crs := None\<rparr>))"
  by (simp add: example_fs_def)

lemma example_geo:
  "compute_center_latlon example_transform example_fs
     ([''home'', ''spot'', ''images''] @ [''S1'', ''rgb.tif'']) = Inr None"
  by (simp add: compute_center_latlon_def example_fs_def)

lemma example_images:
  "example_base = JObj
     [(''name'', JStr ''template''),
      (''images'', JObj [(''path'', JStr ''images/{id}/image.tif''), (''shape'', JArr [JInt 10, JInt 10])]),
      (''classes'', JArr
         [JObj [(''name'', JStr ''Clear''), (''colour'', JArr [JInt 255, JInt 255, JInt 255, JInt 0])],
          JObj [(''name'', JStr ''Cloud''), (''colour'', JArr [JInt 255, JInt 255, JInt 0, JInt 70])]])]"
  by (simp add: example_base_def)

lemma getitem_inject: "getitem d k = Inr a \<Longrightarrow> getitem d k = Inr b \<Longrightarrow> a = b"
  by simp

text \<open>
  C4, as stated, fails: the image path written for scene \<open>S1\<close> is not
  \<open>images/S1/rgb.npy\<close>.
\<close>

theorem image_path_not_instantiated:
  "\<not> (\<exists>cfg images.
      map_of (fst (process_scene example_transform real_of_int example_base
                [''Clear'', ''Cloud''] [(255, 255, 255), (255, 255, 0)]
                [''home'', ''base.json''] [''home'', ''spot'', ''images''] example_fs ''S1''))
        [''home'', ''spot'', ''S1'', ''S1.json''] = Some (JsonFile cfg) \<and>
      getitem cfg ''images'' = Inr images \<and>
      getitem images ''path'' = Inr (JStr ''images/S1/rgb.npy''))"
proof
  assume "\<exists>cfg images.
      map_of (fst (process_scene example_transform real_of_int example_base
                [''Clear'', ''Cloud''] [(255, 255, 255), (255, 255, 0)]
                [''home'', ''base.json''] [''home'', ''spot'', ''images''] example_fs ''S1''))
        [''home'', ''spot'', ''S1'', ''S1.json''] = Some (JsonFile cfg) \<and>
      getitem cfg ''images'' = Inr images \<and>
      getitem images ''path'' = Inr (JStr ''images/S1/rgb.npy'')"
  then obtain cfg images where
    w: "map_of (fst (process_scene example_transform real_of_int example_base
                [''Clear'', ''Cloud''] [(255, 255, 255), (255, 255, 0)]
                [''home'', ''base.json''] [''home'', ''spot'', ''images''] example_fs ''S1''))
        [''home'', ''spot'', ''S1'', ''S1.json''] = Some (JsonFile cfg)"
    and i: "getitem cfg ''images'' = Inr images"
    and p: "getitem images ''path'' = Inr (JStr ''images/S1/rgb.npy'')"
    by blast
  obtain cfg' where c: "scene_cfg example_base ''S1'' 2 1 = Inr cfg'"
    using scene_cfg_ok[of _ _ _ "''S1''" 2 1] unfolding example_images by fastforce
  have "map_of (fst (process_scene example_transform real_of_int example_base
                [''Clear'', ''Cloud''] [(255, 255, 255), (255, 255, 0)]
                [''home'', ''base.json''] [''home'', ''spot'', ''images''] example_fs ''S1''))
        (parent [''home'', ''base.json''] @ [''spot'', ''S1'', ''S1'' @ ''.json'']) = Some (JsonFile cfg')"
    by (rule project_json_written[OF example_tif example_geo]) (use c in \<open>simp add: example_rgb_def\<close>)
  then have "cfg' = cfg" using w by (simp add: parent_def)
  then obtain images' where "getitem cfg ''images'' = Inr images'"
      "getitem images' ''path'' = Inr (JStr ''images/{id}/rgb.npy'')"
    using scene_cfg_fields[OF c] by blast
  then show False using i p by simp
qed

text \<open>
  C4, amended. When nothing before it raises, the configuration written for a scene as
  \<open><ID>.json\<close> holds the scene's identifier as \<open>name\<close>, the literal template
  \<open>images/{id}/rgb.npy\<close> as image path (the same text for every scene, with the
  placeholder left in), the shape \<open>[width, height]\<close> and the mask area
  \<open>[0, 0, width, height]\<close>.
\<close>

theorem scene_config_fields:
  assumes "map_of fs (images_root @ [id_name, ''rgb.tif'']) = Some (Tif src)"
    and "compute_center_latlon transform fs (images_root @ [id_name, ''rgb.tif'']) = Inr latlon"
    and "map_of kvs ''images'' = Some (JObj ikvs)"
    and "map_of kvs ''segmentation'' = None \<or> map_of kvs ''segmentation'' = Some (JObj skvs)"
  shows "\<exists>cfg images seg.
     map_of (fst (process_scene transform to_float (JObj kvs) classes class_colors
            base_json_path images_root fs id_name))
          (parent base_json_path @ [''spot'', id_name, id_name @ ''.json'']) = Some (JsonFile cfg) \<and>
     getitem cfg ''name'' = Inr (JStr id_name) \<and>
     getitem cfg ''images'' = Inr images \<and>
     getitem images ''path'' = Inr (JStr ''images/{id}/rgb.npy'') \<and>
     getitem images ''shape'' = Inr (JArr [JInt (int (tif_width src)), JInt (int (tif_height src))]) \<and>
     getitem cfg ''segmentation'' = Inr seg \<and>
     getitem seg ''mask_area'' =
       Inr (JArr [JInt 0, JInt 0, JInt (int (tif_width src)), JInt (int (tif_height src))])"
proof -
  obtain cfg where c: "scene_cfg (JObj kvs) id_name (tif_width src) (tif_height src) = Inr cfg"
    using scene_cfg_ok[OF assms(3,4)] by blast
  show ?thesis
    using project_json_written[OF assms(1,2) c, of to_float classes class_colors base_json_path]
      scene_cfg_fields[OF c]
    by blast
qed

theorem scene_config_fields_witness:
  "\<exists>cfg images seg.
     map_of (fst (process_scene example_transform real_of_int example_base
                [''Clear'', ''Cloud''] [(255, 255, 255), (255, 255, 0)]
                [''home'', ''base.json''] [''home'', ''spot'', ''images''] example_fs ''S1''))
        [''home'', ''spot'', ''S1'', ''S1.json''] = Some (JsonFile cfg) \<and>
     getitem cfg ''name'' = Inr (JStr ''S1'') \<and>
     getitem cfg ''images'' = Inr images \<and>
     getitem images ''path'' = Inr (JStr ''images/{id}/rgb.npy'') \<and>
     getitem images ''shape'' = Inr (JArr [JInt 2, JInt 1]) \<and>
     getitem cfg ''segmentation'' = Inr seg \<and>
     getitem seg ''mask_area'' = Inr (JArr [JInt 0, JInt 0, JInt 2, JInt 1])"
proof -
  have t: "map_of [(''name'', JStr ''template''),
      (''images'', JObj [(''path'', JStr ''images/{id}/image.tif''), (''shape'', JArr [JInt 10, JInt 10])]),
      (''classes'', JArr
         [JObj [(''name'', JStr ''Clear''), (''colour'', JArr [JInt 255, JInt 255, JInt 255, JInt 0])],
          JObj [(''name'', JStr ''Cloud''), (''colour'', JArr [JInt 255, JInt 255, JInt 0, JInt 70])]])]
      ''images'' = Some (JObj [(''path'', JStr ''images/{id}/image.tif''), (''shape'', JArr [JInt 10, JInt 10])])"
    by simp
  show ?thesis
    using scene_config_fields[OF example_tif example_geo t, of "[]" real_of_int
        "[''Clear'', ''Cloud'']" "[(255, 255, 255), (255, 255, 0)]" "[''home'', ''base.json'']"]
    by (simp add: example_images[symmetric] parent_def example_rgb_def)
qed

lemma compute_center_no_crs:
  "map_of fs tif_path = Some (Tif src) \<Longrightarrow> tif_crs src = None \<Longrightarrow>
   compute_center_latlon transform fs tif_path = Inr None"
  by (simp add: compute_center_latlon_def)

lemma scene_fs_mask:
  "map_of (scene_fs to_float base_json_path images_root fs id_name latlon cfg)
     (images_root @ [id_name, MASK_TIF_NAME]) =
   map_of fs (images_root @ [id_name, MASK_TIF_NAME])"
proof (rule scene_fs_other)
  let ?q = "images_root @ [id_name, MASK_TIF_NAME]"
  show "?q \<noteq> parent base_json_path @ [''spot'', id_name, ''images'', id_name, ''rgb.npy'']"
    by (rule last_neq) (simp add: MASK_TIF_NAME_def)
  show "?q \<noteq> parent base_json_path @ [''spot'', id_name, ''images'', id_name, ''metadata.json'']"
    by (rule last_neq) (simp add: MASK_TIF_NAME_def)
  show "?q \<noteq> images_root @ [id_name, ''rgb.npy'']"
    by (rule last_neq) (simp add: MASK_TIF_NAME_def)
  show "?q \<noteq> parent base_json_path @ [''spot'', id_name, id_name @ ''.json'']"
    by (rule last_neq) (use json_name_neq[of id_name] in \<open>simp add: MASK_TIF_NAME_def\<close>)
qed

lemma build_caches_ok:
  assumes "map_of fs (id_src_dir @ [MASK_TIF_NAME]) = None \<or>
      (\<exists>m band rest. map_of fs (id_src_dir @ [MASK_TIF_NAME]) = Some (Tif m) \<and> tif_bands m = band # rest)"
    and "length classes \<le> length class_colors"
  shows "snd (build_caches_from_mask fs id_src_dir proj_dir proj_name classes class_colors) = None"
  using assms build_caches_no_mask[of fs id_src_dir] build_caches_complete(1)[of fs id_src_dir]
  by fastforce

text \<open>
  C8. A raster without a coordinate reference system yields no location: \<open>None\<close>,
  whatever the reprojection routine would return. The scene is still configured (given a
  template that fits and a readable or absent mask), its \<open>metadata.json\<close> is left as it
  was, not written, and the loop goes on with the following scenes.
\<close>

theorem no_crs_not_fatal:
  assumes "map_of fs (images_root @ [id_name, ''rgb.tif'']) = Some (Tif src)"
    and "tif_crs src = None"
    and "map_of kvs ''images'' = Some (JObj ikvs)"
    and "map_of kvs ''segmentation'' = None \<or> map_of kvs ''segmentation'' = Some (JObj skvs)"
    and "map_of fs (images_root @ [id_name, MASK_TIF_NAME]) = None \<or>
      (\<exists>m band rest. map_of fs (images_root @ [id_name, MASK_TIF_NAME]) = Some (Tif m) \<and>
         tif_bands m = band # rest)"
    and "length classes \<le> length class_colors"
  shows "compute_center_latlon transform fs (images_root @ [id_name, ''rgb.tif'']) = Inr None \<and>
     snd (process_scene transform to_float (JObj kvs) classes class_colors
            base_json_path images_root fs id_name) =
       Configured (''iris label '' @
         path_str (parent base_json_path @ [''spot'', id_name, id_name @ ''.json''])) \<and>
     map_of (fst (process_scene transform to_float (JObj kvs) classes class_colors
            base_json_path images_root fs id_name))
       (parent base_json_path @ [''spot'', id_name, ''images'', id_name, ''metadata.json'']) =
     map_of fs (parent base_json_path @ [''spot'', id_name, ''images'', id_name, ''metadata.json'']) \<and>
     scenes_loop (process_scene transform to_float (JObj kvs) classes class_colors
            base_json_path images_root) (id_name # ids) fs run_lines =
     scenes_loop (process_scene transform to_float (JObj kvs) classes class_colors
            base_json_path images_root) ids
       (fst (process_scene transform to_float (JObj kvs) classes class_colors
            base_json_path images_root fs id_name))
       (run_lines @ [''iris label '' @
         path_str (parent base_json_path @ [''spot'', id_name, id_name @ ''.json''])])"
proof -
  let ?p = "process_scene transform to_float (JObj kvs) classes class_colors
            base_json_path images_root fs id_name"
  let ?line = "''iris label '' @
         path_str (parent base_json_path @ [''spot'', id_name, id_name @ ''.json''])"
  let ?meta = "parent base_json_path @ [''spot'', id_name, ''images'', id_name, ''metadata.json'']"
  have geo: "compute_center_latlon transform fs (images_root @ [id_name, ''rgb.tif'']) = Inr None"
    using assms(1,2) by (rule compute_center_no_crs)
  obtain cfg where c: "scene_cfg (JObj kvs) id_name (tif_width src) (tif_height src) = Inr cfg"
    using scene_cfg_ok[OF assms(3,4)] by blast
  let ?fs = "scene_fs to_float base_json_path images_root fs id_name None cfg"
  let ?b = "build_caches_from_mask ?fs (images_root @ [id_name])
      (parent base_json_path @ [''spot'', id_name]) id_name classes class_colors"
  have tr: "?p = (case ?b of (fs, Some e) \<Rightarrow> (fs, Raised e) | (fs, None) \<Rightarrow> (fs, Configured ?line))"
    by (rule process_scene_trace[OF assms(1) geo c])
  have ok: "snd ?b = None"
    by (rule build_caches_ok) (use assms(5,6) in \<open>simp_all add: scene_fs_mask\<close>)
  have p: "?p = (fst ?b, Configured ?line)"
    unfolding tr using ok by (cases ?b) simp
  have "map_of (fst ?b) ?meta = map_of ?fs ?meta"
    by (rule build_caches_other) (simp_all add: seg_dir_def)
  then have m: "map_of (fst ?p) ?meta = map_of fs ?meta"
    by (simp add: p scene_fs_metadata)
  have l: "scenes_loop (process_scene transform to_float (JObj kvs) classes class_colors
            base_json_path images_root) (id_name # ids) fs run_lines =
     scenes_loop (process_scene transform to_float (JObj kvs) classes class_colors
            base_json_path images_root) ids (fst ?p) (run_lines @ [?line])"
    by (simp add: p)
  show ?thesis using geo m l by (simp add: p)
qed

theorem no_crs_not_fatal_witness:
  "compute_center_latlon example_transform example_fs
       ([''home'', ''spot'', ''images''] @ [''S1'', ''rgb.tif'']) = Inr None \<and>
     snd (process_scene example_transform real_of_int example_base
            [''Clear'', ''Cloud''] [(255, 255, 255), (255, 255, 0)]
            [''home'', ''base.json''] [''home'', ''spot'', ''images''] example_fs ''S1'') =
       Configured (''iris label '' @
         path_str (parent [''home'', ''base.json''] @ [''spot'', ''S1'', ''S1'' @ ''.json''])) \<and>
     map_of (fst (process_scene example_transform real_of_int example_base
            [''Clear'', ''Cloud''] [(255, 255, 255), (255, 255, 0)]
            [''home'', ''base.json''] [''home'', ''spot'', ''images''] example_fs ''S1''))
       (parent [''home'', ''base.json''] @ [''spot'', ''S1'', ''images'', ''S1'', ''metadata.json'']) =
     map_of example_fs
       (parent [''home'', ''base.json''] @ [''spot'', ''S1'', ''images'', ''S1'', ''metadata.json'']) \<and>
     scenes_loop (process_scene example_transform real_of_int example_base
            [''Clear'', ''Cloud''] [(255, 255, 255), (255, 255, 0)]
            [''home'', ''base.json''] [''home'', ''spot'', ''images'']) (''S1'' # [''S2'']) example_fs [] =
     scenes_loop (process_scene example_transform real_of_int example_base
            [''Clear'', ''Cloud''] [(255, 255, 255), (255, 255, 0)]
            [''home'', ''base.json''] [''home'', ''spot'', ''images'']) [''S2'']
       (fst (process_scene example_transform real_of_int example_base
            [''Clear'', ''Cloud''] [(255, 255, 255), (255, 255, 0)]
            [''home'', ''base.json''] [''home'', ''spot'', ''images''] example_fs ''S1''))
       ([] @ [''iris label '' @
         path_str (parent [''home'', ''base.json''] @ [''spot'', ''S1'', ''S1'' @ ''.json''])])"
  unfolding example_images
  by (rule no_crs_not_fatal[where src = "example_rgb\<lparr>tif_crs := None\<rparr>" and skvs = "[]"
        and ikvs = "[(''path'', JStr ''images/{id}/image.tif''), (''shape'', JArr [JInt 10, JInt 10])]"])
     (simp_all add: example_fs_def example_mask_def MASK_TIF_NAME_def)

lemma set_update_subset: "set (AList.update k v al) \<subseteq> insert (k, v) (set al)"
  by (induction al) auto

lemma those_map_Some:
  "those (map f xs) = Some ys \<Longrightarrow> x \<in> set xs \<Longrightarrow> \<exists>y. f x = Some y"
  by (induction xs arbitrary: ys) (auto split: option.splits)

lemma reach_self: "a \<in> reach h (VRef a)"
  by (simp add: reach_def)

lemma reach_child:
  assumes "a < length h" "c \<in> refs (h ! a)"
  shows "reach h (VRef c) \<subseteq> reach h (VRef a)"
proof -
  have "(a, c) \<in> edges h" using assms by (simp add: edges_def)
  then show ?thesis by (auto simp: reach_def intro: converse_rtrancl_into_rtrancl)
qed

lemma reach_cases:
  assumes "x \<in> reach h (VRef a)"
  shows "x = a \<or> (a < length h \<and> (\<exists>c\<in>refs (h ! a). x \<in> reach h (VRef c)))"
proof -
  have "(a, x) \<in> (edges h)\<^sup>*" using assms by (simp add: reach_def)
  then show ?thesis
    by (cases rule: converse_rtranclE) (auto simp: reach_def edges_def)
qed

lemma reach_item:
  assumes "a < length h" "h ! a = OList vs" "v \<in> set vs"
  shows "reach h v \<subseteq> reach h (VRef a)"
proof (cases v)
  case (VRef c)
  then have "c \<in> refs (h ! a)" using assms by (simp add: refs_def)
  then show ?thesis using reach_child[OF assms(1)] VRef by simp
qed (simp_all add: reach_def)

lemma reach_field:
  assumes "a < length h" "h ! a = ODict fs" "v \<in> snd ` set fs"
  shows "reach h v \<subseteq> reach h (VRef a)"
proof (cases v)
  case (VRef c)
  then have "c \<in> refs (h ! a)" using assms by (simp add: refs_def)
  then show ?thesis using reach_child[OF assms(1)] VRef by simp
qed (simp_all add: reach_def)

lemma dumps_frame:
  "(\<And>x. x \<in> reach h v \<Longrightarrow> x < length h \<and> x < length h2 \<and> h2 ! x = h ! x) \<Longrightarrow>
   dumps n h2 v = dumps n h v"
proof (induction n arbitrary: v)
  case 0
  then show ?case by (cases v) simp_all
next
  case (Suc n)
  show ?case
  proof (cases v)
    case (VRef a)
    have a: "a < length h" "a < length h2" "h2 ! a = h ! a"
      using Suc.prems[of a] VRef by (simp_all add: reach_self)
    show ?thesis
    proof (cases "h ! a")
      case (OList vs)
      have m: "map (dumps n h2) vs = map (dumps n h) vs"
      proof (rule map_cong[OF refl])
        fix w assume "w \<in> set vs"
        then have "reach h w \<subseteq> reach h v" using reach_item[OF a(1) OList] VRef by simp
        then show "dumps n h2 w = dumps n h w" using Suc.prems by (intro Suc.IH) blast
      qed
      show ?thesis using a OList VRef by (simp add: m)
    next
      case (ODict fs)
      have m: "map (dumps n h2) (map snd fs) = map (dumps n h) (map snd fs)"
      proof (rule map_cong[OF refl])
        fix w assume "w \<in> set (map snd fs)"
        then have "reach h w \<subseteq> reach h v" using reach_field[OF a(1) ODict] VRef by simp
        then show "dumps n h2 w = dumps n h w" using Suc.prems by (intro Suc.IH) blast
      qed
      show ?thesis using a ODict VRef by (simp only: dumps.simps if_True pyobj.case m)
    qed
  qed simp_all
qed

lemma dumps_valid:
  "dumps n h v = Some j \<Longrightarrow> x \<in> reach h v \<Longrightarrow> x < length h"
proof (induction n arbitrary: v j x)
  case 0
  then show ?case by (cases v) (simp_all add: reach_def)
next
  case (Suc n)
  show ?case
  proof (cases v)
    case (VRef a)
    have a: "a < length h" using Suc.prems(1) VRef by (simp split: if_splits)
    consider "x = a" | c where "c \<in> refs (h ! a)" "x \<in> reach h (VRef c)"
      using reach_cases[of x h a] Suc.prems(2) VRef by auto
    then show ?thesis
    proof cases
      case 1
      then show ?thesis using a by simp
    next
      case 2
      have "\<exists>j'. dumps n h (VRef c) = Some j'"
      proof (cases "h ! a")
        case (OList vs)
        then obtain js where "those (map (dumps n h) vs) = Some js"
          using Suc.prems(1) VRef a by auto
        moreover have "VRef c \<in> set vs" using 2(1) OList by (simp add: refs_def)
        ultimately show ?thesis by (rule those_map_Some)
      next
        case (ODict fs)
        then obtain js where "those (map (dumps n h) (map snd fs)) = Some js"
          using Suc.prems(1) VRef a by auto
        moreover have "VRef c \<in> set (map snd fs)" using 2(1) ODict by (simp add: refs_def)
        ultimately show ?thesis by (rule those_map_Some)
      qed
      then show ?thesis using Suc.IH 2(2) by blast
    qed
  qed (use Suc.prems in \<open>simp_all add: reach_def\<close>)
qed

lemma closed_reach:
  assumes "closed h lo hi" "lo \<le> a" "a < hi"
  shows "reach h (VRef a) \<subseteq> {lo..<hi}"
proof
  fix x assume "x \<in> reach h (VRef a)"
  then have "(a, x) \<in> (edges h)\<^sup>*" by (simp add: reach_def)
  then show "x \<in> {lo..<hi}"
  proof (induction rule: rtrancl_induct)
    case base
    then show ?case using assms by simp
  next
    case (step y z)
    then have "z \<in> refs (h ! y)" "lo \<le> y" "y < hi" by (simp_all add: edges_def)
    moreover have "refs (h ! y) \<subseteq> {lo..<hi}"
      using assms(1) calculation(2,3) by (simp add: closed_def)
    ultimately show ?case by blast
  qed
qed

lemma in_range_mono: "in_range lo hi v \<Longrightarrow> lo' \<le> lo \<Longrightarrow> hi \<le> hi' \<Longrightarrow> in_range lo' hi' v"
  by (cases v) (simp_all add: in_range_def)

lemma closed_prefix: "closed h lo (length h) \<Longrightarrow> closed (h @ new) lo (length h)"
  by (simp add: closed_def nth_append)

lemma closed_extend:
  assumes "closed h1 lo (length h1)" "closed (h1 @ new) (length h1) (length (h1 @ new))" "lo \<le> length h1"
  shows "closed (h1 @ new) lo (length (h1 @ new))"
  unfolding closed_def
proof (intro conjI allI impI)
  fix a assume a: "lo \<le> a \<and> a < length (h1 @ new)"
  show "refs ((h1 @ new) ! a) \<subseteq> {lo..<length (h1 @ new)}"
  proof (cases "a < length h1")
    case True
    then have "refs ((h1 @ new) ! a) \<subseteq> {lo..<length h1}"
      using assms(1) a by (simp add: closed_def nth_append)
    then show ?thesis by auto
  next
    case False
    then have "refs ((h1 @ new) ! a) \<subseteq> {length h1..<length (h1 @ new)}"
      using assms(2) a by (simp add: closed_def)
    then show ?thesis using assms(3) by auto
  qed
qed simp

lemma own_refl: "own h h"
  by (auto simp: own_def closed_def)

lemma own_trans:
  assumes "own h0 h1" "own h1 h2"
  shows "own h0 h2"
proof -
  obtain n1 n2 where e: "h1 = h0 @ n1" "h2 = h1 @ n2" using assms by (auto simp: own_def)
  have "closed (h1 @ n2) (length h0) (length (h1 @ n2))"
    by (rule closed_extend) (use assms e in \<open>auto simp: own_def\<close>)
  then show ?thesis using e by (auto simp: own_def)
qed

lemma own_length: "own h0 h \<Longrightarrow> length h0 \<le> length h"
  by (auto simp: own_def)

lemma own_alloc:
  assumes "own h0 h" "refs obj \<subseteq> {length h0..<length h}"
  shows "own h0 (h @ [obj])"
proof -
  obtain new where e: "h = h0 @ new" using assms(1) by (auto simp: own_def)
  have c: "closed h (length h0) (length h)" using assms(1) by (simp add: own_def)
  have "closed (h @ [obj]) (length h0) (Suc (length h))"
    unfolding closed_def
  proof (intro conjI allI impI)
    fix a assume a: "length h0 \<le> a \<and> a < Suc (length h)"
    show "refs ((h @ [obj]) ! a) \<subseteq> {length h0..<Suc (length h)}"
    proof (cases "a < length h")
      case True
      then have "refs (h ! a) \<subseteq> {length h0..<length h}" using c a by (simp add: closed_def)
      then show ?thesis using True by (auto simp: nth_append)
    next
      case False
      then have "a = length h" using a by simp
      then show ?thesis using assms(2) by auto
    qed
  qed simp
  then show ?thesis using e by (simp add: own_def)
qed

lemma refs_items: "(\<And>v. v \<in> set vs \<Longrightarrow> in_range lo hi v) \<Longrightarrow> refs (OList vs) \<subseteq> {lo..<hi}"
  by (fastforce simp: refs_def in_range_def)

lemma refs_fields: "(\<And>v. v \<in> snd ` set fs \<Longrightarrow> in_range lo hi v) \<Longrightarrow> refs (ODict fs) \<subseteq> {lo..<hi}"
  by (fastforce simp: refs_def in_range_def)

lemma loads_own:
  "loads j h = (v, h') \<Longrightarrow> own h h' \<and> in_range (length h) (length h') v"
  "loads_items xs h = (vs, h') \<Longrightarrow> own h h' \<and> (\<forall>v\<in>set vs. in_range (length h) (length h') v)"
  "loads_fields kvs h = (fs, h') \<Longrightarrow> own h h' \<and> (\<forall>v\<in>snd ` set fs. in_range (length h) (length h') v)"
proof (induction j h and xs h and kvs h arbitrary: v h' and vs h' and fs h'
    rule: loads_loads_items_loads_fields.induct)
  case (6 xs h)
  obtain vs h1 where l: "loads_items xs h = (vs, h1)" by (cases "loads_items xs h")
  have i: "own h h1" "\<And>v. v \<in> set vs \<Longrightarrow> in_range (length h) (length h1) v"
    using 6(1)[OF l] by auto
  have r: "v = VRef (length h1)" "h' = h1 @ [OList vs]" using 6(2) l by (auto simp: alloc_def)
  have "own h (h1 @ [OList vs])" using i(1) by (rule own_alloc) (rule refs_items, rule i(2))
  then show ?case using r own_length[OF i(1)] by (simp add: in_range_def)
next
  case (7 kvs h)
  obtain fs h1 where l: "loads_fields kvs h = (fs, h1)" by (cases "loads_fields kvs h")
  have i: "own h h1" "\<And>v. v \<in> snd ` set fs \<Longrightarrow> in_range (length h) (length h1) v"
    using 7(1)[OF l] by auto
  have r: "v = VRef (length h1)" "h' = h1 @ [ODict fs]" using 7(2) l by (auto simp: alloc_def)
  have "own h (h1 @ [ODict fs])" using i(1) by (rule own_alloc) (rule refs_fields, rule i(2))
  then show ?case using r own_length[OF i(1)] by (simp add: in_range_def)
next
  case (9 x xs h)
  obtain v1 h1 where l1: "loads x h = (v1, h1)" by (cases "loads x h")
  obtain vs2 h2 where l2: "loads_items xs h1 = (vs2, h2)" by (cases "loads_items xs h1")
  have r: "vs = v1 # vs2" "h' = h2" using 9(3) l1 l2 by auto
  have i1: "own h h1" "in_range (length h) (length h1) v1" using 9(1)[OF l1] by auto
  have i2: "own h1 h2" "\<And>v. v \<in> set vs2 \<Longrightarrow> in_range (length h1) (length h2) v"
    using 9(2)[OF l1[symmetric] l2] by auto
  show ?case
    using own_trans[OF i1(1) i2(1)] in_range_mono[OF i1(2) le_refl own_length[OF i2(1)]]
      in_range_mono[OF i2(2) own_length[OF i1(1)] le_refl] r
    by auto
next
  case (11 k x kvs h)
  obtain v1 h1 where l1: "loads x h = (v1, h1)" by (cases "loads x h")
  obtain fs2 h2 where l2: "loads_fields kvs h1 = (fs2, h2)" by (cases "loads_fields kvs h1")
  have r: "fs = (k, v1) # fs2" "h' = h2" using 11(3) l1 l2 by auto
  have i1: "own h h1" "in_range (length h) (length h1) v1" using 11(1)[OF l1] by auto
  have i2: "own h1 h2" "\<And>v. v \<in> snd ` set fs2 \<Longrightarrow> in_range (length h1) (length h2) v"
    using 11(2)[OF l1[symmetric] l2] by auto
  show ?case
    using own_trans[OF i1(1) i2(1)] in_range_mono[OF i1(2) le_refl own_length[OF i2(1)]]
      in_range_mono[OF i2(2) own_length[OF i1(1)] le_refl] r
    by auto
qed (auto simp: own_refl in_range_def)

lemma own_update:
  assumes "own h0 h" "length h0 \<le> a" "refs obj \<subseteq> {length h0..<length h}"
  shows "own h0 (h[a := obj])"
proof -
  obtain new where e: "h = h0 @ new" using assms(1) by (auto simp: own_def)
  have c: "closed h (length h0) (length h)" using assms(1) by (simp add: own_def)
  have "h[a := obj] = h0 @ new[a - length h0 := obj]"
    using assms(2) e by (simp add: list_update_append)
  moreover have "closed (h[a := obj]) (length h0) (length h)"
    unfolding closed_def
  proof (intro conjI allI impI)
    fix b assume b: "length h0 \<le> b \<and> b < length h"
    then have "refs (h ! b) \<subseteq> {length h0..<length h}" using c by (simp add: closed_def)
    then show "refs (h[a := obj] ! b) \<subseteq> {length h0..<length h}"
      using assms(3) b by (cases "a = b") simp_all
  qed simp
  ultimately show ?thesis unfolding own_def by (metis length_list_update)
qed

lemma refs_dict_update:
  "refs (ODict (AList.update k v fs)) \<subseteq> refs (ODict fs) \<union> refs (OList [v])"
  using set_update_subset[of k v fs] by (fastforce simp: refs_def)

lemma refs_dict_append:
  "refs (ODict (fs @ [(k, v)])) \<subseteq> refs (ODict fs) \<union> refs (OList [v])"
  by (fastforce simp: refs_def)

lemma refs_single: "in_range lo hi v \<Longrightarrow> refs (OList [v]) \<subseteq> {lo..<hi}"
  by (auto simp: refs_def in_range_def)

lemma own_cell:
  "own h0 h \<Longrightarrow> length h0 \<le> a \<Longrightarrow> a < length h \<Longrightarrow> refs (h ! a) \<subseteq> {length h0..<length h}"
  by (simp add: own_def closed_def)

lemma setitem_own:
  assumes "own h0 h" "in_range (length h0) (length h) d" "in_range (length h0) (length h) v"
    and "py_setitem h d k v = Inr h'"
  shows "own h0 h' \<and> length h' = length h"
proof -
  obtain a fs where d: "d = VRef a" "a < length h" "h ! a = ODict fs"
      "h' = h[a := ODict (AList.update k v fs)]"
    using assms(4) by (auto simp: py_setitem_def split: pyval.splits pyobj.splits if_splits)
  have a: "length h0 \<le> a" using assms(2) d(1) by (simp add: in_range_def)
  have "refs (ODict (AList.update k v fs)) \<subseteq> {length h0..<length h}"
    using refs_dict_update[of k v fs] own_cell[OF assms(1) a d(2)] refs_single[OF assms(3)] d(3)
    by auto
  then show ?thesis using own_update[OF assms(1) a] d(4) by simp
qed

lemma setdefault_own:
  assumes "own h0 h" "in_range (length h0) (length h) d" "in_range (length h0) (length h) v"
    and "py_setdefault h d k v = Inr h'"
  shows "own h0 h' \<and> length h' = length h"
proof -
  obtain a fs where d: "d = VRef a" "a < length h" "h ! a = ODict fs"
      "h' = (if map_of fs k = None then h[a := ODict (fs @ [(k, v)])] else h)"
    using assms(4) by (auto simp: py_setdefault_def split: pyval.splits pyobj.splits if_splits)
  have a: "length h0 \<le> a" using assms(2) d(1) by (simp add: in_range_def)
  have "refs (ODict (fs @ [(k, v)])) \<subseteq> {length h0..<length h}"
    using refs_dict_append[of fs k v] own_cell[OF assms(1) a d(2)] refs_single[OF assms(3)] d(3)
    by auto
  then show ?thesis using own_update[OF assms(1) a] d(4) assms(1) by simp
qed

lemma getitem_range:
  assumes "own h0 h" "in_range (length h0) (length h) d" "py_getitem h d k = Inr v"
  shows "in_range (length h0) (length h) v"
proof -
  obtain a fs where d: "d = VRef a" "a < length h" "h ! a = ODict fs" "map_of fs k = Some v"
    using assms(3) by (auto simp: py_getitem_def split: pyval.splits pyobj.splits if_splits option.splits)
  have a: "length h0 \<le> a" using assms(2) d(1) by (simp add: in_range_def)
  have "v \<in> snd ` set fs" using map_of_SomeD[OF d(4)] by force
  then show ?thesis using own_cell[OF assms(1) a d(2)] d(3)
    by (cases v) (auto simp: in_range_def refs_def)
qed

lemma alloc_own:
  assumes "own h0 h" "refs obj = {}" "alloc h obj = (v, h')"
  shows "own h0 h' \<and> in_range (length h0) (length h') v \<and> length h' = Suc (length h)"
  using own_alloc[OF assms(1), of obj] assms(2,3) own_length[OF assms(1)]
  by (auto simp: alloc_def in_range_def)

lemma in_range_Suc: "in_range lo hi v \<Longrightarrow> in_range lo (Suc hi) v"
  by (erule in_range_mono) simp_all

lemma scene_cfg_heap_own:
  assumes "scene_cfg_heap limit h base_cfg id_name W H = Inr (cfg, h')"
  shows "own h h' \<and> in_range (length h) (length h') cfg \<and> (\<exists>doc. dumps limit h base_cfg = Some doc)"
proof -
  obtain doc h1 h2 images h3 shape h4 images' h5 fresh h6 h7 area h8 seg where
    d: "dumps limit h base_cfg = Some doc"
    and s0: "loads doc h = (cfg, h1)"
    and s1: "py_setitem h1 cfg ''name'' (VStr id_name) = Inr h2"
    and s2: "py_getitem h2 cfg ''images'' = Inr images"
    and s3: "py_setitem h2 images ''path'' (VStr ''images/{id}/rgb.npy'') = Inr h3"
    and s4: "alloc h3 (OList [VInt (int W), VInt (int H)]) = (shape, h4)"
    and s5: "py_getitem h4 cfg ''images'' = Inr images'"
    and s6: "py_setitem h4 images' ''shape'' shape = Inr h5"
    and s7: "alloc h5 (ODict []) = (fresh, h6)"
    and s8: "py_setdefault h6 cfg ''segmentation'' fresh = Inr h7"
    and s9: "alloc h7 (OList [VInt 0, VInt 0, VInt (int W), VInt (int H)]) = (area, h8)"
    and s10: "py_getitem h8 cfg ''segmentation'' = Inr seg"
    and s11: "py_setitem h8 seg ''mask_area'' area = Inr h'"
    using assms unfolding scene_cfg_heap_def and_then_def
    by (auto split: option.splits prod.splits sum.splits)
  note scalar = in_range_def
  have o1: "own h h1" and c1: "in_range (length h) (length h1) cfg"
    using loads_own(1)[OF s0] by auto
  have o2: "own h h2" and l2: "length h2 = length h1"
    using setitem_own[OF o1 c1 _ s1] by (auto simp: scalar)
  have c2: "in_range (length h) (length h2) cfg" using c1 l2 by simp
  have i2: "in_range (length h) (length h2) images" using getitem_range[OF o2 c2 s2] .
  have o3: "own h h3" and l3: "length h3 = length h2"
    using setitem_own[OF o2 i2 _ s3] by (auto simp: scalar)
  have o4: "own h h4" and r4: "in_range (length h) (length h4) shape" and l4: "length h4 = Suc (length h3)"
    using alloc_own[OF o3 _ s4] by (auto simp: refs_def)
  have c4: "in_range (length h) (length h4) cfg" using in_range_Suc[OF c2] l3 l4 by simp
  have i4: "in_range (length h) (length h4) images'" using getitem_range[OF o4 c4 s5] .
  have o5: "own h h5" and l5: "length h5 = length h4"
    using setitem_own[OF o4 i4 r4 s6] by auto
  have o6: "own h h6" and r6: "in_range (length h) (length h6) fresh" and l6: "length h6 = Suc (length h5)"
    using alloc_own[OF o5 _ s7] by (auto simp: refs_def)
  have c6: "in_range (length h) (length h6) cfg" using in_range_Suc[OF c4] l5 l6 by simp
  have o7: "own h h7" and l7: "length h7 = length h6"
    using setdefault_own[OF o6 c6 r6 s8] by auto
  have o8: "own h h8" and r8: "in_range (length h) (length h8) area" and l8: "length h8 = Suc (length h7)"
    using alloc_own[OF o7 _ s9] by (auto simp: refs_def)
  have c8: "in_range (length h) (length h8) cfg" using in_range_Suc[OF c6] l7 l8 by simp
  have g8: "in_range (length h) (length h8) seg" using getitem_range[OF o8 c8 s10] .
  have o9: "own h h'" and l9: "length h' = length h8"
    using setitem_own[OF o8 g8 r8 s11] by auto
  show ?thesis using o9 c8 l9 d by simp
qed

lemma in_range_reach:
  assumes "closed h lo hi" "in_range lo hi v"
  shows "reach h v \<subseteq> {lo..<hi}"
proof (cases v)
  case (VRef a)
  then show ?thesis using closed_reach[OF assms(1), of a] assms(2) by (simp add: in_range_def)
qed (simp_all add: reach_def)

lemma own_closed: "own h0 h \<Longrightarrow> closed h (length h0) (length h)"
  by (simp add: own_def)

lemma own_nth: "own h0 h \<Longrightarrow> x < length h0 \<Longrightarrow> h ! x = h0 ! x"
  by (auto simp: own_def nth_append)

text \<open>
  C5. The objects of a scene's configuration are all allocated by its own
  \<open>json.loads\<close> and by the assignments that follow. Making the configurations of two
  scenes leaves the template as it was, and the second leaves the first as it was. After
  that, replacing any object reachable from one scene's configuration by any other object
  changes neither what the template nor what the other scene's configuration serialises
  to, at any nesting limit.
\<close>

theorem deep_copy_independent:
  assumes "scene_cfg_heap limit h base_cfg id_a W_a H_a = Inr (cfg_a, h_a)"
    and "scene_cfg_heap limit h_a base_cfg id_b W_b H_b = Inr (cfg_b, h_b)"
  shows "dumps m h_b base_cfg = dumps m h base_cfg \<and>
     dumps m h_b cfg_a = dumps m h_a cfg_a \<and>
     (a \<in> reach h_b cfg_a \<longrightarrow>
        dumps m (h_b[a := obj]) base_cfg = dumps m h base_cfg \<and>
        dumps m (h_b[a := obj]) cfg_b = dumps m h_b cfg_b) \<and>
     (a \<in> reach h_b cfg_b \<longrightarrow>
        dumps m (h_b[a := obj]) base_cfg = dumps m h base_cfg \<and>
        dumps m (h_b[a := obj]) cfg_a = dumps m h_a cfg_a)"
proof -
  obtain doc where oa: "own h h_a" and ca: "in_range (length h) (length h_a) cfg_a"
    and d: "dumps limit h base_cfg = Some doc"
    using scene_cfg_heap_own[OF assms(1)] by blast
  have ob: "own h_a h_b" and cb: "in_range (length h_a) (length h_b) cfg_b"
    using scene_cfg_heap_own[OF assms(2)] by blast+
  have la: "length h \<le> length h_a" and lb: "length h_a \<le> length h_b"
    using own_length[OF oa] own_length[OF ob] .
  have valid: "x < length h" if "x \<in> reach h base_cfg" for x
    using dumps_valid[OF d that] .
  have ra: "reach h_a cfg_a \<subseteq> {length h..<length h_a}"
    using in_range_reach[OF own_closed[OF oa] ca] .
  have ra': "reach h_b cfg_a \<subseteq> {length h..<length h_a}"
  proof -
    obtain new where "h_b = h_a @ new" using ob by (auto simp: own_def)
    then have "closed h_b (length h) (length h_a)"
      using closed_prefix[OF own_closed[OF oa]] by simp
    then show ?thesis using ca by (rule in_range_reach)
  qed
  have rb: "reach h_b cfg_b \<subseteq> {length h_a..<length h_b}"
    using in_range_reach[OF own_closed[OF ob] cb] .
  have old: "h_b ! x = h ! x" if "x < length h" for x
    using own_nth[OF ob, of x] own_nth[OF oa that] that la by simp
  have base: "dumps m h2 base_cfg = dumps m h base_cfg"
    if "length h_b = length h2" "\<And>x. x < length h \<Longrightarrow> h2 ! x = h_b ! x" for h2
  proof (rule dumps_frame)
    fix x assume "x \<in> reach h base_cfg"
    then have "x < length h" by (rule valid)
    then show "x < length h \<and> x < length h2 \<and> h2 ! x = h ! x"
      using that old la lb by simp
  qed
  have first: "dumps m h2 cfg_a = dumps m h_a cfg_a"
    if "length h_b = length h2" "\<And>x. x < length h_a \<Longrightarrow> h2 ! x = h_b ! x" for h2
  proof (rule dumps_frame)
    fix x assume "x \<in> reach h_a cfg_a"
    then have "x < length h_a" using ra by auto
    then show "x < length h_a \<and> x < length h2 \<and> h2 ! x = h_a ! x"
      using that lb own_nth[OF ob, of x] by simp
  qed
  have 1: "dumps m h_b base_cfg = dumps m h base_cfg" by (rule base) simp_all
  have 2: "dumps m h_b cfg_a = dumps m h_a cfg_a" by (rule first) simp_all
  have 3: "dumps m (h_b[a := obj]) base_cfg = dumps m h base_cfg \<and>
      dumps m (h_b[a := obj]) cfg_b = dumps m h_b cfg_b" if "a \<in> reach h_b cfg_a"
  proof
    have a: "length h \<le> a" "a < length h_a" using that ra' by auto
    show "dumps m (h_b[a := obj]) base_cfg = dumps m h base_cfg"
      by (rule base) (use a in simp_all)
    show "dumps m (h_b[a := obj]) cfg_b = dumps m h_b cfg_b"
    proof (rule dumps_frame)
      fix x assume "x \<in> reach h_b cfg_b"
      then have "length h_a \<le> x" "x < length h_b" using rb by auto
      then show "x < length h_b \<and> x < length (h_b[a := obj]) \<and> h_b[a := obj] ! x = h_b ! x"
        using a by simp
    qed
  qed
  have 4: "dumps m (h_b[a := obj]) base_cfg = dumps m h base_cfg \<and>
      dumps m (h_b[a := obj]) cfg_a = dumps m h_a cfg_a" if "a \<in> reach h_b cfg_b"
  proof
    have a: "length h_a \<le> a" using that rb by auto
    show "dumps m (h_b[a := obj]) base_cfg = dumps m h base_cfg"
      by (rule base) (use a la in simp_all)
    show "dumps m (h_b[a := obj]) cfg_a = dumps m h_a cfg_a"
      by (rule first) (use a in simp_all)
  qed
  show ?thesis using 1 2 3 4 by blast
qed

lemma example_run:
  "(case scene_cfg_heap 10 example_heap example_template ''S1'' 2 1 of
      Inl e \<Rightarrow> False
    | Inr (cfg_a, h_a) \<Rightarrow>
        (case scene_cfg_heap 10 h_a example_template ''S2'' 2 1 of
           Inl e \<Rightarrow> False
         | Inr (cfg_b, h_b) \<Rightarrow>
             (case cfg_a of
                VRef a \<Rightarrow> (case h_b ! a of ODict fs \<Rightarrow> dumps 10 h_b cfg_b \<noteq> None | _ \<Rightarrow> False)
              | _ \<Rightarrow> False))) \<and>
   dumps 10 example_heap example_template = Some example_base"
  by code_simp

lemma example_models_agree:
  "(case scene_cfg_heap 10 example_heap example_template ''S1'' 2 1 of
      Inl e \<Rightarrow> False
    | Inr (cfg, h) \<Rightarrow> map_option Inr (dumps 10 h cfg) = Some (scene_cfg example_base ''S1'' 2 1))"
  by code_simp

theorem deep_copy_independent_witness:
  "\<exists>cfg_a h_a cfg_b h_b a fs.
     scene_cfg_heap 10 example_heap example_template ''S1'' 2 1 = Inr (cfg_a, h_a) \<and>
     scene_cfg_heap 10 h_a example_template ''S2'' 2 1 = Inr (cfg_b, h_b) \<and>
     cfg_a = VRef a \<and> h_b ! a = ODict fs \<and>
     dumps 10 h_b example_template = Some example_base \<and>
     dumps 10 (h_b[a := ODict (AList.update ''name'' (VStr ''renamed'') fs)]) example_template =
       Some example_base \<and>
     dumps 10 (h_b[a := ODict (AList.update ''name'' (VStr ''renamed'') fs)]) cfg_b =
       dumps 10 h_b cfg_b \<and>
     dumps 10 h_b cfg_b \<noteq> None"
proof -
  note run = example_run[THEN conjunct1]
  obtain cfg_a h_a where
    r1: "scene_cfg_heap 10 example_heap example_template ''S1'' 2 1 = Inr (cfg_a, h_a)"
    using run by (cases "scene_cfg_heap 10 example_heap example_template ''S1'' 2 1") auto
  have run2: "case scene_cfg_heap 10 h_a example_template ''S2'' 2 1 of
           Inl e \<Rightarrow> False
         | Inr (cfg_b, h_b) \<Rightarrow>
             (case cfg_a of
                VRef a \<Rightarrow> (case h_b ! a of ODict fs \<Rightarrow> dumps 10 h_b cfg_b \<noteq> None | _ \<Rightarrow> False)
              | _ \<Rightarrow> False)"
    using run unfolding r1 by simp
  obtain cfg_b h_b where
    r2: "scene_cfg_heap 10 h_a example_template ''S2'' 2 1 = Inr (cfg_b, h_b)"
    using run2 by (cases "scene_cfg_heap 10 h_a example_template ''S2'' 2 1") auto
  have run3: "case cfg_a of
                VRef a \<Rightarrow> (case h_b ! a of ODict fs \<Rightarrow> dumps 10 h_b cfg_b \<noteq> None | _ \<Rightarrow> False)
              | _ \<Rightarrow> False"
    using run2 unfolding r2 by simp
  obtain a where r3: "cfg_a = VRef a" using run3 by (cases cfg_a) auto
  obtain fs where r4: "h_b ! a = ODict fs" and r5: "dumps 10 h_b cfg_b \<noteq> None"
    using run3 unfolding r3 by (cases "h_b ! a") auto
  have t: "dumps 10 example_heap example_template = Some example_base"
    using example_run by simp
  have "a \<in> reach h_b cfg_a" using r3 by (simp add: reach_self)
  then show ?thesis
    using deep_copy_independent[OF r1 r2, of 10 a "ODict (AList.update ''name'' (VStr ''renamed'') fs)"]
      r1 r2 r3 r4 r5 t
    by auto
qed

section \<open>The whole run on the worked scene\<close>

text \<open>
  Two scenes, the first without a coordinate reference system and with a mask, the
  second with one and without a mask: the loop ends without an exception, gathers a
  launcher line for both scenes and writes a location for the second scene only.
\<close>

lemma example_run_scenes:
  "snd (scenes_loop
          (process_scene example_transform real_of_int example_base
             [''Clear'', ''Cloud''] [(255, 255, 255), (255, 255, 0)]
             [''home'', ''base.json''] [''home'', ''spot'', ''images''])
          [''S1'', ''S2''] example_fs []) = None \<and>
   snd (fst (scenes_loop
          (process_scene example_transform real_of_int example_base
             [''Clear'', ''Cloud''] [(255, 255, 255), (255, 255, 0)]
             [''home'', ''base.json''] [''home'', ''spot'', ''images''])
          [''S1'', ''S2''] example_fs [])) =
     [''iris label /home/spot/S1/S1.json'', ''iris label /home/spot/S2/S2.json''] \<and>
   map_of (fst (fst (scenes_loop
          (process_scene example_transform real_of_int example_base
             [''Clear'', ''Cloud''] [(255, 255, 255), (255, 255, 0)]
             [''home'', ''base.json''] [''home'', ''spot'', ''images''])
          [''S1'', ''S2''] example_fs [])))
     [''home'', ''spot'', ''S2'', ''images'', ''S2'', ''metadata.json''] =
   Some (JsonFile (JObj [(''scene_id'', JStr ''S2''), (''location'', JArr [JFloat 5, JFloat 10])])) \<and>
   map_of (fst (fst (scenes_loop
          (process_scene example_transform real_of_int example_base
             [''Clear'', ''Cloud''] [(255, 255, 255), (255, 255, 0)]
             [''home'', ''base.json''] [''home'', ''spot'', ''images''])
          [''S1'', ''S2''] example_fs [])))
     [''home'', ''spot'', ''S1'', ''images'', ''S1'', ''metadata.json''] = None"
  by code_simp

end
